theory Spec2Isabelle
  imports Complex_Main "HOL-Library.Word"
begin

unbundle bit_operations_syntax

section \<open>Conventions of the embedding\<close>

text \<open>
  The development follows \<^verbatim>\<open>affy2vcf.c\<close>. Fixed-width integers are words, C strings are
  HOL strings without the terminating NUL, and a call of \<^verbatim>\<open>error(...)\<close>, which aborts the
  run, is the left summand of a sum type. A \<^verbatim>\<open>float\<close> is modelled by a real number:
  rounding, infinities and NaN of single precision are not represented, so every
  statement about intensities is a statement about the exact arithmetic the code
  approximates.
\<close>

type_synonym u8 = "8 word"
type_synonym u32 = "32 word"

datatype error =
    ReadFailed
  | BadMagic
  | UnsupportedVersion
  | NotAtEndOfFile
  | NameTooLong
  | NameMismatch
  | ColumnCount
  | ExpectedSuffixA
  | CannotReadIntensities
  | SummaryEndedPrematurely
  | GenotypeMalformed
  | OutOfBounds

definition ebind :: "error + 'a \<Rightarrow> ('a \<Rightarrow> error + 'b) \<Rightarrow> error + 'b" where
  "ebind m f = (case m of Inl e \<Rightarrow> Inl e | Inr x \<Rightarrow> f x)"

section \<open>Primitive stream decoder\<close>

text \<open>
  An \<^verbatim>\<open>hFILE\<close> opened for reading is the list of bytes not yet consumed.
  \<^verbatim>\<open>read_bytes\<close> with a destination buffer fails when fewer bytes are left.
\<close>

type_synonym hFILE = "u8 list"

definition read_bytes :: "hFILE \<Rightarrow> nat \<Rightarrow> error + (u8 list \<times> hFILE)" where
  "read_bytes fp nbytes =
     (if length fp < nbytes then Inl ReadFailed
      else Inr (take nbytes fp, drop nbytes fp))"

definition heof :: "hFILE \<Rightarrow> bool" where
  "heof fp = (fp = [])"

text \<open>
  The host's byte order decides which integer a \<^verbatim>\<open>uint32_t\<close> object holds after four
  bytes of the stream have been copied into it (\<open>load32\<close>), and what \<^verbatim>\<open>ntohl\<close> does:
  nothing on a big-endian host, a byte swap on a little-endian one.
\<close>

datatype endianness = LittleEndian | BigEndian

definition be32 :: "u8 \<Rightarrow> u8 \<Rightarrow> u8 \<Rightarrow> u8 \<Rightarrow> u32" where
  "be32 b0 b1 b2 b3 =
     push_bit 24 (ucast b0) OR push_bit 16 (ucast b1) OR push_bit 8 (ucast b2) OR ucast b3"

definition le32 :: "u8 \<Rightarrow> u8 \<Rightarrow> u8 \<Rightarrow> u8 \<Rightarrow> u32" where
  "le32 b0 b1 b2 b3 = be32 b3 b2 b1 b0"

definition load32 :: "endianness \<Rightarrow> u8 list \<Rightarrow> u32" where
  "load32 h bs =
     (case bs of
        [b0, b1, b2, b3] \<Rightarrow> (case h of BigEndian \<Rightarrow> be32 b0 b1 b2 b3
                                      | LittleEndian \<Rightarrow> le32 b0 b1 b2 b3)
      | _ \<Rightarrow> 0)"

definition bswap32 :: "u32 \<Rightarrow> u32" where
  "bswap32 v =
     push_bit 24 (v AND 0xFF) OR push_bit 8 (v AND 0xFF00)
       OR (drop_bit 8 v AND 0xFF00) OR drop_bit 24 v"

definition ntohl :: "endianness \<Rightarrow> u32 \<Rightarrow> u32" where
  "ntohl h v = (case h of BigEndian \<Rightarrow> v | LittleEndian \<Rightarrow> bswap32 v)"

text \<open>\<^verbatim>\<open>read_long\<close>: four bytes into a \<^verbatim>\<open>uint32_t\<close>, then \<^verbatim>\<open>ntohl\<close>.\<close>

definition read_long :: "endianness \<Rightarrow> hFILE \<Rightarrow> error + (u32 \<times> hFILE)" where
  "read_long h fp =
     ebind (read_bytes fp 4) (\<lambda>(bs, fp'). Inr (ntohl h (load32 h bs), fp'))"

text \<open>
  \<^verbatim>\<open>read_float\<close>: the same four bytes and the same \<^verbatim>\<open>ntohl\<close>, then the bits are read as a
  \<^verbatim>\<open>float\<close> through the union \<^verbatim>\<open>convert\<close>; \<open>fob\<close> stands for that reinterpretation.
\<close>

definition read_float :: "endianness \<Rightarrow> (u32 \<Rightarrow> real) \<Rightarrow> hFILE \<Rightarrow> error + (real \<times> hFILE)" where
  "read_float h fob fp =
     ebind (read_bytes fp 4) (\<lambda>(bs, fp'). Inr (fob (ntohl h (load32 h bs)), fp'))"

text \<open>
  A \<^verbatim>\<open>uint16_t\<close> object after two bytes have been copied into it, and \<^verbatim>\<open>ntohs\<close>: nothing
  on a big-endian host, the two bytes exchanged on a little-endian one.
\<close>

type_synonym u16 = "16 word"

definition be16 :: "u8 \<Rightarrow> u8 \<Rightarrow> u16" where
  "be16 b0 b1 = push_bit 8 (ucast b0) OR ucast b1"

definition load16 :: "endianness \<Rightarrow> u8 list \<Rightarrow> u16" where
  "load16 h bs =
     (case bs of
        [b0, b1] \<Rightarrow> (case h of BigEndian \<Rightarrow> be16 b0 b1 | LittleEndian \<Rightarrow> be16 b1 b0)
      | _ \<Rightarrow> 0)"

definition ntohs :: "endianness \<Rightarrow> u16 \<Rightarrow> u16" where
  "ntohs h v = (case h of BigEndian \<Rightarrow> v | LittleEndian \<Rightarrow> push_bit 8 v OR drop_bit 8 v)"

text \<open>
  \<^verbatim>\<open>read_string8\<close> and \<^verbatim>\<open>read_string16\<close>: a length read with \<^verbatim>\<open>read_long\<close> and taken as an
  \<^verbatim>\<open>int32_t\<close>, then that many bytes, or that many 16-bit code units, each passed through
  \<^verbatim>\<open>ntohs\<close>. The result is the length and the buffer, which is \<^verbatim>\<open>NULL\<close> (\<open>None\<close>) for the
  length 0. With a negative length the code reads or writes outside the buffer it
  allocated; the model reports that as \<open>OutOfBounds\<close>.
\<close>

definition read_string8 :: "endianness \<Rightarrow> hFILE \<Rightarrow> error + (u32 \<times> u8 list option \<times> hFILE)" where
  "read_string8 h fp0 =
     ebind (read_long h fp0) (\<lambda>(len, fp).
       if len = 0 then Inr (len, None, fp)
       else if sint len < 0 then Inl OutOfBounds
       else ebind (read_bytes fp (nat (sint len))) (\<lambda>(bs, fp'). Inr (len, Some bs, fp')))"

fun read_wchars :: "endianness \<Rightarrow> nat \<Rightarrow> hFILE \<Rightarrow> error + (u16 list \<times> hFILE)" where
  "read_wchars h 0 fp = Inr ([], fp)"
| "read_wchars h (Suc k) fp =
     ebind (read_bytes fp 2) (\<lambda>(bs, fp').
     ebind (read_wchars h k fp') (\<lambda>(ws, fp'').
       Inr (ntohs h (load16 h bs) # ws, fp'')))"

definition read_string16 :: "endianness \<Rightarrow> hFILE \<Rightarrow> error + (u32 \<times> u16 list option \<times> hFILE)" where
  "read_string16 h fp0 =
     ebind (read_long h fp0) (\<lambda>(len, fp).
       if len = 0 then Inr (len, None, fp)
       else if sint len < 0 then Inl OutOfBounds
       else ebind (read_wchars h (nat (sint len)) fp) (\<lambda>(ws, fp'). Inr (len, Some ws, fp')))"

text \<open>
  \<^verbatim>\<open>read_bytes(fp, &field, sizeof(int32_t))\<close> as the XDA reader uses it: the four bytes
  land in the field as they are, with no conversion.
\<close>

definition read_native32 :: "endianness \<Rightarrow> hFILE \<Rightarrow> error + (u32 \<times> hFILE)" where
  "read_native32 h fp =
     ebind (read_bytes fp 4) (\<lambda>(bs, fp'). Inr (load32 h bs, fp'))"

section \<open>Fixed-layout (XDA) container reader\<close>

text \<open>
  A byte count computed from an \<^verbatim>\<open>int32_t\<close> field: a negative field converts to a
  \<^verbatim>\<open>size_t\<close> beyond any stream, so the read fails; the model reports that failure
  directly. A \<^verbatim>\<open>uint32_t\<close> count is its unsigned value.
\<close>

definition read_block_i32 :: "hFILE \<Rightarrow> u32 \<Rightarrow> nat \<Rightarrow> error + (u8 list \<times> hFILE)" where
  "read_block_i32 fp n elem =
     (if sint n < 0 then Inl ReadFailed else read_bytes fp (nat (sint n) * elem))"

definition read_block_u32 :: "hFILE \<Rightarrow> u32 \<Rightarrow> nat \<Rightarrow> error + (u8 list \<times> hFILE)" where
  "read_block_u32 fp n elem = read_bytes fp (unat n * elem)"

record xda_cel_t =
  version :: u32
  num_rows :: u32
  num_cols :: u32
  num_cells :: u32
  n_header :: u32
  header :: "u8 list"
  n_algorithm :: u32
  algorithm :: "u8 list"
  n_parameters :: u32
  parameters :: "u8 list"
  cell_margin :: u32
  num_outlier_cells :: u32
  num_masked_cells :: u32
  num_sub_grids :: u32
  cells :: "u8 list"
  masked_entries :: "u8 list"
  outlier_entries :: "u8 list"
  sub_grids :: "u8 list"

text \<open>
  The four arrays are kept as the raw bytes the code copies into them; an element takes
  10 bytes (\<^verbatim>\<open>Cell\<close>), 4 bytes (\<^verbatim>\<open>Entry\<close>) and 56 bytes (\<^verbatim>\<open>SubGrid\<close>). With
  \<open>flags\<close> set the function returns after the header fields.
\<close>

definition xda_cel_init :: "endianness \<Rightarrow> hFILE \<Rightarrow> bool \<Rightarrow> error + xda_cel_t" where
  "xda_cel_init h fp0 flags =
     ebind (read_native32 h fp0) (\<lambda>(magic, fp).
     if magic \<noteq> 64 then Inl BadMagic else
     ebind (read_native32 h fp) (\<lambda>(ver, fp).
     if ver \<noteq> 4 then Inl UnsupportedVersion else
     ebind (read_native32 h fp) (\<lambda>(rows, fp).
     ebind (read_native32 h fp) (\<lambda>(cols, fp).
     ebind (read_native32 h fp) (\<lambda>(ncells, fp).
     ebind (read_native32 h fp) (\<lambda>(nhdr, fp).
     ebind (read_block_i32 fp nhdr 1) (\<lambda>(hdr, fp).
     ebind (read_native32 h fp) (\<lambda>(nalg, fp).
     ebind (read_block_i32 fp nalg 1) (\<lambda>(alg, fp).
     ebind (read_native32 h fp) (\<lambda>(npar, fp).
     ebind (read_block_i32 fp npar 1) (\<lambda>(par, fp).
     ebind (read_native32 h fp) (\<lambda>(margin, fp).
     ebind (read_native32 h fp) (\<lambda>(noutl, fp).
     ebind (read_native32 h fp) (\<lambda>(nmask, fp).
     ebind (read_native32 h fp) (\<lambda>(nsub, fp).
     let x = \<lparr>version = ver, num_rows = rows, num_cols = cols, num_cells = ncells,
              n_header = nhdr, header = hdr, n_algorithm = nalg, algorithm = alg,
              n_parameters = npar, parameters = par, cell_margin = margin,
              num_outlier_cells = noutl, num_masked_cells = nmask, num_sub_grids = nsub,
              cells = [], masked_entries = [], outlier_entries = [], sub_grids = []\<rparr>
     in if flags then Inr x else
     ebind (read_block_i32 fp ncells 10) (\<lambda>(cs, fp).
     ebind (read_block_u32 fp nmask 4) (\<lambda>(ms, fp).
     ebind (read_block_u32 fp noutl 4) (\<lambda>(os, fp).
     ebind (read_block_i32 fp nsub 56) (\<lambda>(sg, fp).
     if \<not> heof fp then Inl NotAtEndOfFile
     else Inr (x\<lparr>cells := cs, masked_entries := ms, outlier_entries := os,
                 sub_grids := sg\<rparr>))))))))))))))))))))"

text \<open>
  Two headers for the examples below: one with its fields stored least significant byte
  first (2 rows, 3 columns, 6 cells, empty texts), and the same fields stored most
  significant byte first.
\<close>

definition xda_le_example :: hFILE where
  "xda_le_example =
     [64,0,0,0, 4,0,0,0, 2,0,0,0, 3,0,0,0, 6,0,0,0, 0,0,0,0, 0,0,0,0, 0,0,0,0,
      0,0,0,0, 0,0,0,0, 0,0,0,0, 0,0,0,0]"

definition xda_be_example :: hFILE where
  "xda_be_example =
     [0,0,0,64, 0,0,0,4, 0,0,0,2, 0,0,0,3, 0,0,0,6, 0,0,0,0, 0,0,0,0, 0,0,0,0,
      0,0,0,0, 0,0,0,0, 0,0,0,0, 0,0,0,0]"

definition xda_le_example_header :: xda_cel_t where
  "xda_le_example_header =
     \<lparr>version = 4, num_rows = 2, num_cols = 3, num_cells = 6,
      n_header = 0, header = [], n_algorithm = 0, algorithm = [],
      n_parameters = 0, parameters = [], cell_margin = 0,
      num_outlier_cells = 0, num_masked_cells = 0, num_sub_grids = 0,
      cells = [], masked_entries = [], outlier_entries = [], sub_grids = []\<rparr>"

text \<open>
  A header with texts and counts that are not zero, stored least significant byte
  first: a header text of two characters, an algorithm name and a parameter text of one
  character each, the margin 5, one outlier, two masked cells and three sub-grids.
\<close>

definition xda_le_full :: hFILE where
  "xda_le_full =
     [64,0,0,0, 4,0,0,0, 2,0,0,0, 3,0,0,0, 6,0,0,0, 2,0,0,0, 97,98, 1,0,0,0, 99,
      1,0,0,0, 100, 5,0,0,0, 1,0,0,0, 2,0,0,0, 3,0,0,0]"

definition xda_le_full_header :: xda_cel_t where
  "xda_le_full_header =
     \<lparr>version = 4, num_rows = 2, num_cols = 3, num_cells = 6,
      n_header = 2, header = [97, 98], n_algorithm = 1, algorithm = [99],
      n_parameters = 1, parameters = [100], cell_margin = 5,
      num_outlier_cells = 1, num_masked_cells = 2, num_sub_grids = 3,
      cells = [], masked_entries = [], outlier_entries = [], sub_grids = []\<rparr>"

text \<open>A string of the Calvin format: the length 2, then the code units 65 and 66.\<close>

definition wide_example :: hFILE where
  "wide_example = [0,0,0,2, 0,65, 0,66, 7]"

section \<open>Self-describing (Calvin) container reader: the column table\<close>

text \<open>
  A column header as \<^verbatim>\<open>agcc_read_data_set\<close> stores it: the wide-character name (one
  16-bit code unit per character), the type tag and the byte width (the field
  \<^verbatim>\<open>size\<close>, here \<open>size_c\<close>). The width is an \<^verbatim>\<open>int32_t\<close> that the offset loop adds
  to the \<^verbatim>\<open>uint32_t\<close> row width, so both are 32-bit words and the additions wrap.
\<close>

record ColHeader =
  name :: "16 word list"
  type :: u8
  size_c :: u32

text \<open>
  The fields of \<^verbatim>\<open>DataSet\<close> that the column layout and the row cursor use; \<open>n_cols\<close>
  is the length of \<open>col_headers\<close>.
\<close>

record DataSet =
  pos_first_element :: u32
  pos_next_data_set :: u32
  col_headers :: "ColHeader list"
  n_rows :: u32
  fp :: hFILE
  n_buffer :: u32
  col_offsets :: "u32 list"
  buffer :: "u8 list"

text \<open>
  The loop \<^verbatim>\<open>for (i = 0; i < n_cols; i++) { col_offsets[i] = n_buffer; n_buffer += size; }\<close>
  with the running \<^verbatim>\<open>n_buffer\<close> as an argument; it returns the offsets and the final
  \<^verbatim>\<open>n_buffer\<close>.
\<close>

fun col_offsets_loop :: "u32 \<Rightarrow> ColHeader list \<Rightarrow> u32 list \<times> u32" where
  "col_offsets_loop nb [] = ([], nb)"
| "col_offsets_loop nb (c # cs) =
     (let (offs, nb') = col_offsets_loop (nb + size_c c) cs in (nb # offs, nb'))"

text \<open>
  The end of \<^verbatim>\<open>agcc_read_data_set\<close>, after the column table has been read:
  \<^verbatim>\<open>n_buffer = 0\<close>, the offset loop, and the allocation of the row buffer.
\<close>

definition agcc_data_set_layout :: "DataSet \<Rightarrow> DataSet" where
  "agcc_data_set_layout ds =
     (let (offs, nb) = col_offsets_loop 0 (col_headers ds)
      in ds\<lparr>n_buffer := nb, col_offsets := offs, buffer := replicate (unat nb) 0\<rparr>)"

section \<open>Multi-source genotype/intensity iterator\<close>

definition GT_NC :: int where "GT_NC = - 1"
definition GT_AA :: int where "GT_AA = 0"
definition GT_AB :: int where "GT_AB = 1"
definition GT_BB :: int where "GT_BB = 2"

definition MAX_LENGTH_PROBE_SET_ID :: nat where
  "MAX_LENGTH_PROBE_SET_ID = 17"

text \<open>The table \<^verbatim>\<open>gt[16]\<close> of \<^verbatim>\<open>varitr_loop\<close>, entry by entry.\<close>

definition gt :: "int list" where
  "gt = [- 1, - 1, - 1, - 1, - 1, - 1, GT_AA, GT_BB, GT_AB, - 1, - 1, GT_NC, - 1, - 1, - 1, - 1]"

definition M_LN2 :: real where "M_LN2 = ln 2"
definition M_LOG2E :: real where "M_LOG2E = 1 / ln 2"
definition M_2_PI :: real where "M_2_PI = 2 / pi"

record varitr_t =
  nsmpl :: nat
  nrow :: u32
  data_sets :: "DataSet list option"
  is_axiom :: "bool list"
  calls_fp :: "string option"
  confidences_fp :: "string option"
  summary_fp :: "string option"
  probe_set_id :: string
  gts :: "int list"
  conf_arr :: "real list"
  norm_x_arr :: "real list"
  norm_y_arr :: "real list"
  delta_arr :: "real list"
  size_arr :: "real list"

subsection \<open>Probe-set identifiers\<close>

text \<open>
  The destination \<^verbatim>\<open>probe_set_id\<close> is a C string: its characters, none of them NUL, with
  the terminator left implicit. The source of the binary path is a pointer into the row
  buffer, modelled by the bytes from that position to the end of the buffer; reading
  past them is outside the buffer.
\<close>

definition NUL :: char where "NUL = CHR 0x00"

definition byte_char :: "u8 \<Rightarrow> char" where
  "byte_char b = char_of (unat b)"

text \<open>\<^verbatim>\<open>strncpy(dest, src, n); dest[n] = '\0'\<close>: the string left in \<open>dest\<close>.\<close>

fun strncpy_c :: "string \<Rightarrow> nat \<Rightarrow> error + string" where
  "strncpy_c src 0 = Inr []"
| "strncpy_c [] (Suc n) = Inl OutOfBounds"
| "strncpy_c (c # cs) (Suc n) =
     (if c = NUL then Inr [] else ebind (strncpy_c cs n) (\<lambda>r. Inr (c # r)))"

text \<open>\<^verbatim>\<open>strncmp(dest, src, n) == 0\<close>, character by character.\<close>

fun strncmp_c :: "string \<Rightarrow> string \<Rightarrow> nat \<Rightarrow> error + bool" where
  "strncmp_c d src 0 = Inr True"
| "strncmp_c d [] (Suc n) = Inl OutOfBounds"
| "strncmp_c [] (c # cs) (Suc n) = Inr (c = NUL)"
| "strncmp_c (a # as) (c # cs) (Suc n) =
     (if a \<noteq> c then Inr False else strncmp_c as cs n)"

definition check_n_probe_set_id :: "string \<Rightarrow> string \<Rightarrow> nat \<Rightarrow> error + string" where
  "check_n_probe_set_id dest src n =
     (if dest = [] then
        (if n > MAX_LENGTH_PROBE_SET_ID then Inl NameTooLong else strncpy_c src n)
      else ebind (strncmp_c dest src n) (\<lambda>same.
        if \<not> same then Inl NameMismatch else Inr dest))"

text \<open>The text path compares two C strings with \<^verbatim>\<open>strlen\<close>, \<^verbatim>\<open>strcpy\<close> and \<^verbatim>\<open>strcmp\<close>.\<close>

definition check_probe_set_id :: "string \<Rightarrow> string \<Rightarrow> error + string" where
  "check_probe_set_id dest src =
     (if dest = [] then
        (if length src > MAX_LENGTH_PROBE_SET_ID then Inl NameTooLong else Inr src)
      else if dest \<noteq> src then Inl NameMismatch else Inr dest)"

subsection \<open>Binary (CHP) mode\<close>

definition col_offset :: "DataSet \<Rightarrow> nat \<Rightarrow> error + u32" where
  "col_offset ds j =
     (if j < length (col_offsets ds) then Inr (col_offsets ds ! j) else Inl OutOfBounds)"

text \<open>\<^verbatim>\<open>ntohl(*(uint32_t *)&buffer[off])\<close>.\<close>

definition buf_long :: "endianness \<Rightarrow> u8 list \<Rightarrow> u32 \<Rightarrow> error + u32" where
  "buf_long h buf off =
     (if unat off + 4 \<le> length buf
      then Inr (ntohl h (load32 h (take 4 (drop (unat off) buf))))
      else Inl OutOfBounds)"

text \<open>
  The four lines that turn two raw signals into contrast and size; they occur in the
  binary path and again in the summary path.
\<close>

definition log2_signals :: "real \<Rightarrow> real \<Rightarrow> real \<times> real" where
  "log2_signals nx ny =
     (let log2x = ln nx * M_LOG2E; log2y = ln ny * M_LOG2E
      in (log2x - log2y, (log2x + log2y) * 0.5))"

text \<open>
  One pass of the \<^verbatim>\<open>for\<close> loop over the samples. \<open>fob\<close> stands for the reinterpretation
  of four bytes as a \<^verbatim>\<open>float\<close> through the union \<^verbatim>\<open>convert\<close>. The result \<open>None\<close> is
  \<^verbatim>\<open>return -1\<close>.
\<close>

definition varitr_loop_sample ::
  "endianness \<Rightarrow> (u32 \<Rightarrow> real) \<Rightarrow> nat \<Rightarrow> varitr_t \<Rightarrow> DataSet list
     \<Rightarrow> error + (varitr_t \<times> DataSet list) option" where
  "varitr_loop_sample h fob i v dss =
     (if length dss \<le> i \<or> length (is_axiom v) \<le> i then Inl OutOfBounds else
      let ds0 = dss ! i in
      if n_rows ds0 < nrow v then Inr None else
      ebind (read_bytes (fp ds0) (unat (n_buffer ds0))) (\<lambda>(row, rest).
      let ds = ds0\<lparr>fp := rest, buffer := row\<rparr> in
      ebind (col_offset ds 0) (\<lambda>o0.
      ebind (buf_long h row o0) (\<lambda>n.
      ebind (check_n_probe_set_id (probe_set_id v)
               (map byte_char (drop (unat o0 + 4) row)) (unat n)) (\<lambda>psid.
      ebind (col_offset ds 1) (\<lambda>o1.
      if length row \<le> unat o1 then Inl OutOfBounds else
      let g = gt ! unat (row ! unat o1 AND 0x0F) in
      ebind (col_offset ds 2) (\<lambda>o2.
      ebind (buf_long h row o2) (\<lambda>c.
      ebind (col_offset ds 3) (\<lambda>o3.
      ebind (buf_long h row o3) (\<lambda>u3.
      ebind (col_offset ds 4) (\<lambda>o4.
      ebind (buf_long h row o4) (\<lambda>u4.
      let (nx, ny, dl, sz) =
        (if is_axiom v ! i then
           (let dl = fob u3; sz = fob u4
            in (exp ((sz + dl * 0.5) * M_LN2), exp ((sz - dl * 0.5) * M_LN2), dl, sz))
         else
           (let nx = fob u3; ny = fob u4; (dl, sz) = log2_signals nx ny
            in (nx, ny, dl, sz)))
      in Inr (Some (v\<lparr>probe_set_id := psid,
                       gts := (gts v)[i := g],
                       conf_arr := (conf_arr v)[i := fob c],
                       norm_x_arr := (norm_x_arr v)[i := nx],
                       norm_y_arr := (norm_y_arr v)[i := ny],
                       delta_arr := (delta_arr v)[i := dl],
                       size_arr := (size_arr v)[i := sz]\<rparr>,
                    dss[i := ds]))))))))))))))"

fun varitr_loop_samples ::
  "endianness \<Rightarrow> (u32 \<Rightarrow> real) \<Rightarrow> nat list \<Rightarrow> varitr_t \<Rightarrow> DataSet list
     \<Rightarrow> error + varitr_t option" where
  "varitr_loop_samples h fob [] v dss = Inr (Some (v\<lparr>data_sets := Some dss\<rparr>))"
| "varitr_loop_samples h fob (i # js) v dss =
     ebind (varitr_loop_sample h fob i v dss) (\<lambda>r.
       case r of None \<Rightarrow> Inr None
               | Some (v', dss') \<Rightarrow> varitr_loop_samples h fob js v' dss')"

definition varitr_loop_cc ::
  "endianness \<Rightarrow> (u32 \<Rightarrow> real) \<Rightarrow> varitr_t \<Rightarrow> DataSet list \<Rightarrow> error + varitr_t option" where
  "varitr_loop_cc h fob v dss =
     varitr_loop_samples h fob [0..<nsmpl v] (v\<lparr>nrow := nrow v + 1\<rparr>) dss"

subsection \<open>Text mode\<close>

text \<open>
  A text table is the string of characters not yet read. \<^verbatim>\<open>hts_getline\<close> and
  \<^verbatim>\<open>ksplit_core\<close> belong to the I/O library: the first returns the next line without
  its newline, or nothing at the end of the file (a negative return value); the second
  cuts a line at tab characters into its non-empty fields. The text is taken to be free
  of NUL characters, and \<open>None\<close> as a result is \<^verbatim>\<open>return -1\<close>.
\<close>

definition LF :: char where "LF = CHR 0x0A"
definition TAB :: char where "TAB = CHR 0x09"

definition hts_getline :: "string \<Rightarrow> (string \<times> string) option" where
  "hts_getline s =
     (if s = [] then None
      else Some (takeWhile (\<lambda>c. c \<noteq> LF) s, drop 1 (dropWhile (\<lambda>c. c \<noteq> LF) s)))"

function ksplit_core :: "string \<Rightarrow> char \<Rightarrow> string list" where
  "ksplit_core [] d = []"
| "ksplit_core (c # cs) d =
     (if c = d then ksplit_core cs d
      else takeWhile (\<lambda>x. x \<noteq> d) (c # cs) # ksplit_core (dropWhile (\<lambda>x. x \<noteq> d) cs) d)"
  by pat_completeness auto
termination
  by (relation "measure (\<lambda>(s, d). length s)")
     (auto simp: length_dropWhile_le less_Suc_eq_le)

text \<open>\<open>off[0]\<close>, the position of the first field: the number of leading delimiters.\<close>

definition first_off :: "string \<Rightarrow> char \<Rightarrow> nat" where
  "first_off s d = length (takeWhile (\<lambda>x. x = d) s)"

definition sbind ::
  "error + 'a option \<Rightarrow> ('a \<Rightarrow> error + 'b option) \<Rightarrow> error + 'b option" where
  "sbind m f = (case m of Inl e \<Rightarrow> Inl e | Inr None \<Rightarrow> Inr None | Inr (Some x) \<Rightarrow> f x)"

text \<open>The block \<^verbatim>\<open>// read genotypes\<close>; \<open>strtol\<close> is the C library's conversion.\<close>

definition read_calls :: "(string \<Rightarrow> int) \<Rightarrow> varitr_t \<Rightarrow> string \<Rightarrow> error + varitr_t option" where
  "read_calls strtol v s =
     (case hts_getline s of None \<Rightarrow> Inr None
      | Some (line, rest) \<Rightarrow>
          (let fields = ksplit_core line TAB in
           if length fields \<noteq> 1 + nsmpl v then Inl ColumnCount else
           ebind (check_probe_set_id (probe_set_id v) (hd fields)) (\<lambda>psid.
           Inr (Some (v\<lparr>calls_fp := Some rest, gts := map strtol (tl fields),
                         probe_set_id := psid\<rparr>)))))"

text \<open>The block \<^verbatim>\<open>// read confidences\<close>.\<close>

definition read_confidences ::
  "(string \<Rightarrow> real) \<Rightarrow> varitr_t \<Rightarrow> string \<Rightarrow> error + varitr_t option" where
  "read_confidences strtof v s =
     (case hts_getline s of None \<Rightarrow> Inr None
      | Some (line, rest) \<Rightarrow>
          (let fields = ksplit_core line TAB in
           if length fields \<noteq> 1 + nsmpl v then Inl ColumnCount else
           ebind (check_probe_set_id (probe_set_id v) (hd fields)) (\<lambda>psid.
           Inr (Some (v\<lparr>confidences_fp := Some rest, conf_arr := map strtof (tl fields),
                         probe_set_id := psid\<rparr>)))))"

text \<open>
  The \<^verbatim>\<open>do ... while\<close> loop of the block \<^verbatim>\<open>// read intensities\<close>. One round reads a
  line, demands the suffix \<^verbatim>\<open>-A\<close> on its first field, cuts the suffix off, and peeks
  \<open>len\<close> characters of what follows into the local array \<^verbatim>\<open>buf\<close> of
  \<open>MAX_LENGTH_PROBE_SET_ID\<close> characters; the loop repeats while the peek is short or
  does not show the same prefix followed by \<^verbatim>\<open>-B\<close>. On leaving the loop the function
  holds the fields of the accepted line and the table behind it. A first field of one
  character at the start of the line makes the suffix test read in front of the line.
\<close>

function summary_seek :: "nat \<Rightarrow> string \<Rightarrow> error + (string list \<times> string) option" where
  "summary_seek n s =
     (case hts_getline s of None \<Rightarrow> Inr None
      | Some (line, rest) \<Rightarrow>
          (let fields = ksplit_core line TAB in
           if length fields \<noteq> 1 + n then Inl ColumnCount else
           let f0 = hd fields; len = length f0 in
           if len < 2 \<and> first_off line TAB = 0 then Inl OutOfBounds else
           if len < 2 then Inl ExpectedSuffixA else
           if f0 ! (len - 2) \<noteq> CHR ''-'' \<or> f0 ! (len - 1) \<noteq> CHR ''A''
             then Inl ExpectedSuffixA else
           if len - 2 > MAX_LENGTH_PROBE_SET_ID then Inl CannotReadIntensities else
           let buf = take len rest; ret = length buf in
           if ret > MAX_LENGTH_PROBE_SET_ID then Inl OutOfBounds else
           if ret < len \<or> take (len - 2) buf \<noteq> take (len - 2) f0
                \<or> buf ! (len - 2) \<noteq> CHR ''-'' \<or> buf ! (len - 1) \<noteq> CHR ''B''
             then summary_seek n rest
           else Inr (Some (take (len - 2) f0 # tl fields, rest))))"
  by pat_completeness auto
termination
proof (relation "measure (\<lambda>(n, s). length s)")
  show "wf (measure (\<lambda>(n, s). length s))" by simp
next
  fix n :: nat and s line rest :: string and x2
  assume "hts_getline s = Some x2" and "(line, rest) = x2"
  then have "s \<noteq> []" and "rest = drop 1 (dropWhile (\<lambda>c. c \<noteq> LF) s)"
    by (auto simp: hts_getline_def split: if_splits)
  then have "length rest < length s"
    by (cases s) (auto simp: length_dropWhile_le less_Suc_eq_le intro: le_trans [OF diff_le_self])
  then show "((n, rest), (n, s)) \<in> measure (\<lambda>(n, s). length s)" by simp
qed

declare summary_seek.simps [simp del]

text \<open>
  The rest of the block, after the loop: the signals of the accepted line are converted,
  then the companion line is read and decoded.
\<close>

definition read_summary_companion ::
  "(string \<Rightarrow> real) \<Rightarrow> varitr_t \<Rightarrow> string list \<Rightarrow> string \<Rightarrow> error + varitr_t option" where
  "read_summary_companion strtof v fieldsA s1 =
     (let nx = map strtof (tl fieldsA) in
      case hts_getline s1 of None \<Rightarrow> Inl SummaryEndedPrematurely
      | Some (line, s2) \<Rightarrow>
          if line = [] then Inl SummaryEndedPrematurely else
          let fields = ksplit_core line TAB in
          if length fields \<noteq> 1 + nsmpl v then Inl ColumnCount else
          let f0 = hd fields; len = length f0 in
          if len < 2 then Inl OutOfBounds else
          let ny = map strtof (tl fields);
              ds = map (\<lambda>(x, y). log2_signals x y) (zip nx ny)
          in ebind (check_probe_set_id (probe_set_id v) (take (len - 2) f0)) (\<lambda>psid.
             Inr (Some (v\<lparr>summary_fp := Some s2, norm_x_arr := nx, norm_y_arr := ny,
                           delta_arr := map fst ds, size_arr := map snd ds,
                           probe_set_id := psid\<rparr>))))"

definition read_summary ::
  "(string \<Rightarrow> real) \<Rightarrow> varitr_t \<Rightarrow> string \<Rightarrow> error + varitr_t option" where
  "read_summary strtof v s =
     sbind (summary_seek (nsmpl v) s) (\<lambda>(fieldsA, s1).
       read_summary_companion strtof v fieldsA s1)"

definition varitr_loop_txt ::
  "(string \<Rightarrow> int) \<Rightarrow> (string \<Rightarrow> real) \<Rightarrow> varitr_t \<Rightarrow> error + varitr_t option" where
  "varitr_loop_txt strtol strtof v =
     sbind (case calls_fp v of None \<Rightarrow> Inr (Some v)
            | Some s \<Rightarrow> read_calls strtol v s) (\<lambda>v1.
     sbind (case confidences_fp v1 of None \<Rightarrow> Inr (Some v1)
            | Some s \<Rightarrow> read_confidences strtof v1 s) (\<lambda>v2.
     case summary_fp v2 of None \<Rightarrow> Inr (Some v2)
     | Some s \<Rightarrow> read_summary strtof v2 s))"

text \<open>\<^verbatim>\<open>varitr_loop\<close>: the identifier is cleared, then one of the two modes runs.\<close>

definition varitr_loop ::
  "endianness \<Rightarrow> (u32 \<Rightarrow> real) \<Rightarrow> (string \<Rightarrow> int) \<Rightarrow> (string \<Rightarrow> real) \<Rightarrow> varitr_t
     \<Rightarrow> error + varitr_t option" where
  "varitr_loop h fob strtol strtof v0 =
     (let v = v0\<lparr>probe_set_id := []\<rparr> in
      case data_sets v of
        Some dss \<Rightarrow> varitr_loop_cc h fob v dss
      | None \<Rightarrow> varitr_loop_txt strtol strtof v)"

subsection \<open>Genotypes in the output record\<close>

text \<open>
  The \<^verbatim>\<open>switch\<close> of \<^verbatim>\<open>process\<close> over \<^verbatim>\<open>varitr->gts[i]\<close>, with the library's encodings
  \<^verbatim>\<open>bcf_gt_missing\<close> and \<^verbatim>\<open>bcf_gt_unphased\<close>.
\<close>

definition bcf_gt_missing :: int where "bcf_gt_missing = 0"

definition bcf_gt_unphased :: "int \<Rightarrow> int" where
  "bcf_gt_unphased idx = (idx + 1) * 2"

definition process_gt :: "int \<Rightarrow> int \<Rightarrow> int \<Rightarrow> error + (int \<times> int)" where
  "process_gt allele_a_idx allele_b_idx g =
     (if g = GT_NC then Inr (bcf_gt_missing, bcf_gt_missing)
      else if g = GT_AA then Inr (bcf_gt_unphased allele_a_idx, bcf_gt_unphased allele_a_idx)
      else if g = GT_AB then Inr (bcf_gt_unphased (min allele_a_idx allele_b_idx),
                                   bcf_gt_unphased (max allele_a_idx allele_b_idx))
      else if g = GT_BB then Inr (bcf_gt_unphased allele_b_idx, bcf_gt_unphased allele_b_idx)
      else Inl GenotypeMalformed)"

fun process_gts :: "int \<Rightarrow> int \<Rightarrow> int list \<Rightarrow> error + (int \<times> int) list" where
  "process_gts a b [] = Inr []"
| "process_gts a b (g # gs) =
     ebind (process_gt a b g) (\<lambda>p. ebind (process_gts a b gs) (\<lambda>ps. Inr (p # ps)))"

subsection \<open>Examples\<close>

text \<open>
  Two containers of one row each, with the columns ProbeSetName (a length and up to
  seven characters), Call, Confidence, Signal A, Signal B and Forced Call. The first row
  is for \<^verbatim>\<open>AX-1234\<close> with the call code 6; the second is for \<^verbatim>\<open>AX-12\<close> with the call
  code 0. \<open>example_fob\<close> reads the four bytes of a number as an unsigned integer, so
  that both rows carry the signals 100 and 25.
\<close>

definition example_cols :: "ColHeader list" where
  "example_cols =
     [\<lparr>name = [], type = 7, size_c = 11\<rparr>, \<lparr>name = [], type = 1, size_c = 1\<rparr>,
      \<lparr>name = [], type = 6, size_c = 4\<rparr>, \<lparr>name = [], type = 6, size_c = 4\<rparr>,
      \<lparr>name = [], type = 6, size_c = 4\<rparr>, \<lparr>name = [], type = 1, size_c = 1\<rparr>]"

text \<open>Three columns whose widths add up to \<open>2\<^sup>3\<^sup>2\<close>.\<close>

definition wide_cols :: "ColHeader list" where
  "wide_cols =
     [\<lparr>name = [], type = 7, size_c = 0x7FFFFFFF\<rparr>, \<lparr>name = [], type = 7, size_c = 0x7FFFFFFF\<rparr>,
      \<lparr>name = [], type = 1, size_c = 2\<rparr>]"

definition example_ds :: "u8 list \<Rightarrow> DataSet" where
  "example_ds row =
     \<lparr>pos_first_element = 0, pos_next_data_set = 0, col_headers = example_cols,
      n_rows = 1, fp = row, n_buffer = 25, col_offsets = [0, 11, 12, 16, 20, 24],
      buffer = replicate 25 0\<rparr>"

definition row_long :: "u8 list" where
  "row_long = [0,0,0,7, 65,88,45,49,50,51,52, 6, 0,0,0,1, 0,0,0,100, 0,0,0,25, 6]"

definition row_short :: "u8 list" where
  "row_short = [0,0,0,5, 65,88,45,49,50,0,0, 0, 0,0,0,1, 0,0,0,100, 0,0,0,25, 0]"

definition example_fob :: "u32 \<Rightarrow> real" where
  "example_fob w = real (unat w)"

text \<open>The iterator over these two containers, before and after its first advance.\<close>

definition cc_example :: varitr_t where
  "cc_example =
     \<lparr>nsmpl = 2, nrow = 0, data_sets = Some [example_ds row_long, example_ds row_short],
      is_axiom = [False, False], calls_fp = None, confidences_fp = None, summary_fp = None,
      probe_set_id = [], gts = [0, 0], conf_arr = [0, 0], norm_x_arr = [0, 0],
      norm_y_arr = [0, 0], delta_arr = [0, 0], size_arr = [0, 0]\<rparr>"

definition cc_example_result :: varitr_t where
  "cc_example_result =
     \<lparr>nsmpl = 2, nrow = 1,
      data_sets = Some [(example_ds row_long)\<lparr>fp := [], buffer := row_long\<rparr>,
                        (example_ds row_short)\<lparr>fp := [], buffer := row_short\<rparr>],
      is_axiom = [False, False], calls_fp = None, confidences_fp = None, summary_fp = None,
      probe_set_id = ''AX-1234'', gts = [GT_AA, - 1], conf_arr = [1, 1],
      norm_x_arr = [100, 100], norm_y_arr = [25, 25],
      delta_arr = [fst (log2_signals 100 25), fst (log2_signals 100 25)],
      size_arr = [snd (log2_signals 100 25), snd (log2_signals 100 25)]\<rparr>"

text \<open>
  An iterator over a summary table alone, for one sample, and three tables: a regular
  pair with the signals 100 and 25, a table whose first line has no companion, and the
  rest of that table behind its first line.
\<close>

definition txt_example :: "string \<Rightarrow> varitr_t" where
  "txt_example table =
     \<lparr>nsmpl = 1, nrow = 0, data_sets = None, is_axiom = [], calls_fp = None,
      confidences_fp = None, summary_fp = Some table, probe_set_id = [], gts = [0],
      conf_arr = [0], norm_x_arr = [0], norm_y_arr = [0], delta_arr = [0], size_arr = [0]\<rparr>"

definition example_strtof :: "string \<Rightarrow> real" where
  "example_strtof t = (if t = ''100'' then 100 else if t = ''25'' then 25 else 0)"

definition signal_table :: string where
  "signal_table = ''p1-A'' @ [TAB] @ ''100'' @ [LF] @ ''p1-B'' @ [TAB] @ ''25'' @ [LF]"

definition skip_table :: string where
  "skip_table = ''p1-A'' @ [TAB] @ ''1'' @ [LF] @ ''p2-A'' @ [TAB] @ ''2'' @ [LF]
                @ ''p2-B'' @ [TAB] @ ''3'' @ [LF]"

definition skip_rest :: string where
  "skip_rest = ''p2-A'' @ [TAB] @ ''2'' @ [LF] @ ''p2-B'' @ [TAB] @ ''3'' @ [LF]"






section \<open>Cluster models: adjustment and projection\<close>

text \<open>
  \<^verbatim>\<open>cluster_t\<close> and \<^verbatim>\<open>snp_t\<close>. The pseudo-count fields \<^verbatim>\<open>k\<close> and \<^verbatim>\<open>v\<close> are \<open>k_c\<close> and
  \<open>v_c\<close> here, and the identifier of the model is \<open>snp_probe_set_id\<close>.
\<close>

record cluster_t =
  xm :: real
  xss :: real
  k_c :: real
  v_c :: real
  ym :: real
  yss :: real
  xyss :: real

record snp_t =
  snp_probe_set_id :: string
  copynumber :: int
  aa :: cluster_t
  ab :: cluster_t
  bb :: cluster_t

text \<open>
  \<^verbatim>\<open>adjust_clusters\<close>. The arrays \<open>gts\<close>, \<open>x\<close> and \<open>y\<close> hold at least \<open>n\<close> entries (the
  caller passes the number of samples). First the three means are scaled and the
  pseudo-counts set, then the loop adds each sample to the cluster of its call, then
  the sums are divided.
\<close>

definition adjust_init :: "snp_t \<Rightarrow> snp_t" where
  "adjust_init s =
     s\<lparr>aa := (aa s)\<lparr>xm := xm (aa s) * 0.2, ym := ym (aa s) * 0.2, k_c := 0.2\<rparr>,
       ab := (ab s)\<lparr>xm := xm (ab s) * 0.2, ym := ym (ab s) * 0.2, k_c := 0.2\<rparr>,
       bb := (bb s)\<lparr>xm := xm (bb s) * 0.2, ym := ym (bb s) * 0.2, k_c := 0.2\<rparr>\<rparr>"

definition add_obs :: "real \<Rightarrow> real \<Rightarrow> cluster_t \<Rightarrow> cluster_t" where
  "add_obs xi yi c = c\<lparr>k_c := k_c c + 1, xm := xm c + xi, ym := ym c + yi\<rparr>"

definition adjust_step :: "int list \<Rightarrow> real list \<Rightarrow> real list \<Rightarrow> snp_t \<Rightarrow> nat \<Rightarrow> snp_t" where
  "adjust_step g x y s i =
     (if g ! i = GT_AA then s\<lparr>aa := add_obs (x ! i) (y ! i) (aa s)\<rparr>
      else if g ! i = GT_AB then s\<lparr>ab := add_obs (x ! i) (y ! i) (ab s)\<rparr>
      else if g ! i = GT_BB then s\<lparr>bb := add_obs (x ! i) (y ! i) (bb s)\<rparr>
      else s)"

definition divide_means :: "cluster_t \<Rightarrow> cluster_t" where
  "divide_means c = c\<lparr>xm := xm c / k_c c, ym := ym c / k_c c\<rparr>"

definition adjust_final :: "snp_t \<Rightarrow> snp_t" where
  "adjust_final s =
     s\<lparr>aa := divide_means (aa s), ab := divide_means (ab s), bb := divide_means (bb s)\<rparr>"

definition adjust_clusters ::
  "int list \<Rightarrow> real list \<Rightarrow> real list \<Rightarrow> nat \<Rightarrow> snp_t \<Rightarrow> snp_t" where
  "adjust_clusters g x y n s =
     adjust_final (foldl (adjust_step g x y) (adjust_init s) [0..<n])"

subsection \<open>The adjustment as the specification words it\<close>

text \<open>
  \<open>called g n c\<close> lists, in order, the samples below \<open>n\<close> whose call is \<open>c\<close>;
  \<open>posterior_mean\<close> is the mean the specification gives for a cluster: the prior mean
  at weight 0.2 plus the observations of the supporting samples, over 0.2 plus their
  number.
\<close>

definition called :: "int list \<Rightarrow> nat \<Rightarrow> int \<Rightarrow> nat list" where
  "called g n c = filter (\<lambda>i. g ! i = c) [0..<n]"

definition posterior_mean :: "real \<Rightarrow> real list \<Rightarrow> nat list \<Rightarrow> real" where
  "posterior_mean prior d js =
     (prior * 0.2 + sum_list (map (\<lambda>i. d ! i) js)) / (0.2 + real (length js))"

text \<open>
  What the loop has added to one cluster after the indices \<open>js\<close>, used to describe the
  loop in the proofs below.
\<close>

definition obs_sum :: "int list \<Rightarrow> real list \<Rightarrow> int \<Rightarrow> nat list \<Rightarrow> real" where
  "obs_sum g d c js = sum_list (map (\<lambda>i. d ! i) (filter (\<lambda>i. g ! i = c) js))"

definition obs_count :: "int list \<Rightarrow> int \<Rightarrow> nat list \<Rightarrow> real" where
  "obs_count g c js = real (length (filter (\<lambda>i. g ! i = c) js))"

definition add_all :: "int list \<Rightarrow> real list \<Rightarrow> real list \<Rightarrow> int \<Rightarrow> nat list \<Rightarrow> cluster_t \<Rightarrow> cluster_t" where
  "add_all g x y c js cl =
     cl\<lparr>k_c := k_c cl + obs_count g c js, xm := xm cl + obs_sum g x c js,
        ym := ym cl + obs_sum g y c js\<rparr>"

text \<open>A diploid model and three samples, two of them called AA, for the examples.\<close>

definition example_snp :: snp_t where
  "example_snp =
     \<lparr>snp_probe_set_id = ''AX-1'', copynumber = 2,
      aa = \<lparr>xm = 10, xss = 1, k_c = 5, v_c = 6, ym = 10, yss = 2, xyss = 3\<rparr>,
      ab = \<lparr>xm = 0, xss = 1, k_c = 5, v_c = 6, ym = 9, yss = 2, xyss = 3\<rparr>,
      bb = \<lparr>xm = - 10, xss = 1, k_c = 5, v_c = 6, ym = 10, yss = 2, xyss = 3\<rparr>\<rparr>"

text \<open>
  \<^verbatim>\<open>compute_baf_lrr\<close>. The three cluster centres are put in polar form, by one of two
  maps according to \<open>is_birdseed\<close>; for a model with copy number 1 the centre of the
  heterozygous cluster is then replaced. \<open>get_baf_lrr\<close> is the interpolation routine
  shared with other converters; it is a parameter here.
\<close>

definition cluster_centres :: "bool \<Rightarrow> snp_t \<Rightarrow> real \<times> real \<times> real \<times> real \<times> real \<times> real" where
  "cluster_centres is_birdseed s =
     (let (aa_theta, ab_theta, bb_theta, aa_r, ab_r, bb_r) =
        (if is_birdseed then
           (arctan (ym (aa s) / xm (aa s)) * M_2_PI,
            arctan (ym (ab s) / xm (ab s)) * M_2_PI,
            arctan (ym (bb s) / xm (bb s)) * M_2_PI,
            xm (aa s) + ym (aa s),
            xm (ab s) + ym (ab s),
            xm (bb s) + ym (bb s))
         else
           (arctan (exp (- xm (aa s) * M_LN2)) * M_2_PI,
            arctan (exp (- xm (ab s) * M_LN2)) * M_2_PI,
            arctan (exp (- xm (bb s) * M_LN2)) * M_2_PI,
            exp (ym (aa s) * M_LN2) * 2 * cosh (xm (aa s) * 0.5 * M_LN2),
            exp (ym (ab s) * M_LN2) * 2 * cosh (xm (ab s) * 0.5 * M_LN2),
            exp (ym (bb s) * M_LN2) * 2 * cosh (xm (bb s) * 0.5 * M_LN2)))
      in if copynumber s = 1
         then (aa_theta, (aa_theta + bb_theta) * 0.5, bb_theta, aa_r, (aa_r + bb_r) * 0.5, bb_r)
         else (aa_theta, ab_theta, bb_theta, aa_r, ab_r, bb_r))"

text \<open>
  The memory the function can reach: the model, read through a pointer to
  \<^verbatim>\<open>const\<close>, and the two output arrays, written at the indices below \<open>n\<close>.
\<close>

record projection =
  snp :: snp_t
  baf :: "real list"
  lrr :: "real list"

type_synonym interpolation =
  "real \<Rightarrow> real \<Rightarrow> real \<Rightarrow> real \<Rightarrow> real \<Rightarrow> real \<Rightarrow> real \<Rightarrow> real \<Rightarrow> real \<times> real"

definition project_sample ::
  "interpolation \<Rightarrow> real list \<Rightarrow> real list
     \<Rightarrow> real \<times> real \<times> real \<times> real \<times> real \<times> real \<Rightarrow> projection \<Rightarrow> nat \<Rightarrow> projection" where
  "project_sample get_baf_lrr norm_x norm_y centres p i =
     (let (aa_theta, ab_theta, bb_theta, aa_r, ab_r, bb_r) = centres;
          ilmn_theta = arctan (norm_y ! i / norm_x ! i) * M_2_PI;
          ilmn_r = norm_x ! i + norm_y ! i;
          (b, l) = get_baf_lrr ilmn_theta ilmn_r aa_theta ab_theta bb_theta aa_r ab_r bb_r
      in p\<lparr>baf := (baf p)[i := b], lrr := (lrr p)[i := l]\<rparr>)"

definition compute_baf_lrr ::
  "interpolation \<Rightarrow> real list \<Rightarrow> real list \<Rightarrow> nat \<Rightarrow> bool \<Rightarrow> projection \<Rightarrow> projection" where
  "compute_baf_lrr get_baf_lrr norm_x norm_y n is_birdseed p =
     foldl (project_sample get_baf_lrr norm_x norm_y (cluster_centres is_birdseed (snp p)))
       p [0..<n]"

text \<open>The pair that one round of the loop writes at index \<open>i\<close>.\<close>

definition sample_baf_lrr ::
  "interpolation \<Rightarrow> real list \<Rightarrow> real list
     \<Rightarrow> real \<times> real \<times> real \<times> real \<times> real \<times> real \<Rightarrow> nat \<Rightarrow> real \<times> real" where
  "sample_baf_lrr gbl nx ny c i =
     (case c of (aa_theta, ab_theta, bb_theta, aa_r, ab_r, bb_r) \<Rightarrow>
        gbl (arctan (ny ! i / nx ! i) * M_2_PI) (nx ! i + ny ! i)
          aa_theta ab_theta bb_theta aa_r ab_r bb_r)"

text \<open>
  A model of copy number 1 whose AA and BB centres are at (1, 0) and (1, 1), with
  output arrays for two samples.
\<close>

definition haploid_example :: projection where
  "haploid_example =
     \<lparr>snp = \<lparr>snp_probe_set_id = ''AX-2'', copynumber = 1,
              aa = \<lparr>xm = 1, xss = 1, k_c = 1, v_c = 1, ym = 0, yss = 1, xyss = 0\<rparr>,
              ab = \<lparr>xm = 0, xss = 0, k_c = 0, v_c = 0, ym = 0, yss = 0, xyss = 0\<rparr>,
              bb = \<lparr>xm = 1, xss = 1, k_c = 1, v_c = 1, ym = 1, yss = 1, xyss = 0\<rparr>\<rparr>,
      baf = [0, 0], lrr = [0, 0]\<rparr>"

section \<open>Byte order\<close>

lemma mask_low_byte: "(0xFF::u32) = mask 8"
  by (simp add: mask_eq_exp_minus_1)

lemma mask_second_byte: "(0xFF00::u32) = push_bit 8 (mask 8)"
  by (simp add: mask_eq_exp_minus_1 push_bit_eq_mult)

lemma be32_byte0: "take_bit 8 (be32 a b c d) = ucast d"
  unfolding be32_def
  apply (rule bit_word_eqI)
  apply (simp add: bit_simps)
  apply (auto dest: bit_imp_le_length)
  done

lemma be32_byte1: "take_bit 8 (drop_bit 8 (be32 a b c d)) = ucast c"
  unfolding be32_def
  apply (rule bit_word_eqI)
  apply (simp add: bit_simps)
  apply (auto dest: bit_imp_le_length)
  done

lemma be32_byte2: "take_bit 8 (drop_bit 16 (be32 a b c d)) = ucast b"
  unfolding be32_def
  apply (rule bit_word_eqI)
  apply (simp add: bit_simps)
  apply (auto dest: bit_imp_le_length)
  done

lemma be32_byte3: "drop_bit 24 (be32 a b c d) = ucast a"
  unfolding be32_def
  apply (rule bit_word_eqI)
  apply (simp add: bit_simps)
  apply (auto dest: bit_imp_le_length)
  done

lemma bswap32_bytes:
  "bswap32 v =
     push_bit 24 (take_bit 8 v) OR push_bit 16 (take_bit 8 (drop_bit 8 v))
       OR push_bit 8 (take_bit 8 (drop_bit 16 v)) OR drop_bit 24 v"
  unfolding bswap32_def mask_low_byte mask_second_byte
  apply (rule bit_word_eqI)
  apply (simp add: bit_simps)
  apply (auto dest: bit_imp_le_length)
  done

lemma bswap32_be32: "bswap32 (be32 b3 b2 b1 b0) = be32 b0 b1 b2 b3"
  by (simp add: bswap32_bytes be32_byte0 be32_byte1 be32_byte2 be32_byte3)
     (simp add: be32_def)

lemma ntohl_load32: "ntohl h (load32 h [b0, b1, b2, b3]) = be32 b0 b1 b2 b3"
  by (cases h) (simp_all add: ntohl_def load32_def le32_def bswap32_be32)

lemma ebind_Inr: "ebind (Inr x) f = f x"
  by (simp add: ebind_def)


lemma ebind_Inr_iff: "ebind m f = Inr y \<longleftrightarrow> (\<exists>x. m = Inr x \<and> f x = Inr y)"
  by (cases m) (simp_all add: ebind_def)

lemma read_bytes_Inr_iff:
  "read_bytes s n = Inr p \<longleftrightarrow> n \<le> length s \<and> p = (take n s, drop n s)"
  by (auto simp: read_bytes_def)

lemma read_native32_Inr_iff:
  "read_native32 h s = Inr p \<longleftrightarrow> 4 \<le> length s \<and> p = (load32 h (take 4 s), drop 4 s)"
  by (auto simp: read_native32_def ebind_Inr_iff read_bytes_Inr_iff)

lemma if_Inl_Inr_iff: "((if c then Inl e else m) = Inr y) = (\<not> c \<and> m = Inr y)"
  by simp

lemma ebind_native_step:
  "ebind (read_native32 h s) f = Inr r \<Longrightarrow>
     4 \<le> length s \<and> f (load32 h (take 4 s), drop 4 s) = Inr r"
  by (auto simp: ebind_Inr_iff read_native32_Inr_iff)

lemma ebind_block_i32_step:
  "ebind (read_block_i32 s n e) f = Inr r \<Longrightarrow> \<exists>bs s'. f (bs, s') = Inr r"
  by (auto simp: ebind_Inr_iff)

lemma ebind_block_u32_step:
  "ebind (read_block_u32 s n e) f = Inr r \<Longrightarrow> \<exists>bs s'. f (bs, s') = Inr r"
  by (auto simp: ebind_Inr_iff)

lemma read_long_big_endian:
  "read_long h (b0 # b1 # b2 # b3 # s) = Inr (be32 b0 b1 b2 b3, s)"
  by (simp add: read_long_def read_bytes_def ebind_def ntohl_load32)

lemma bswap16_be16: "push_bit 8 (be16 b1 b0) OR drop_bit 8 (be16 b1 b0) = be16 b0 b1"
  unfolding be16_def
  apply (rule bit_word_eqI)
  apply (simp add: bit_simps)
  apply (auto dest: bit_imp_le_length)
  done

lemma ntohs_load16: "ntohs h (load16 h [b0, b1]) = be16 b0 b1"
  by (cases h) (simp_all add: ntohs_def load16_def bswap16_be16)

lemma read_float_big_endian:
  "read_float h fob (b0 # b1 # b2 # b3 # s) = Inr (fob (be32 b0 b1 b2 b3), s)"
  by (simp add: read_float_def read_bytes_def ebind_def ntohl_load32)

lemma read_wchars_big_endian:
  "2 * k \<le> length s \<Longrightarrow>
   read_wchars h k s
     = Inr (map (\<lambda>i. be16 (s ! (2 * i)) (s ! (2 * i + 1))) [0..<k], drop (2 * k) s)"
proof (induction k arbitrary: s)
  case 0
  show ?case by simp
next
  case (Suc k)
  then obtain a b t where s: "s = a # b # t"
    by (cases s; cases "tl s") auto
  with Suc.prems have "2 * k \<le> length t" by simp
  from Suc.IH [OF this] s show ?case
    by (simp add: read_bytes_def ebind_Inr ntohs_load16 map_upt_Suc del: upt_Suc)
qed

lemma read_string8_big_endian:
  assumes "0 < sint (be32 b0 b1 b2 b3)" and "nat (sint (be32 b0 b1 b2 b3)) \<le> length s"
  shows "read_string8 h (b0 # b1 # b2 # b3 # s)
     = Inr (be32 b0 b1 b2 b3, Some (take (nat (sint (be32 b0 b1 b2 b3))) s),
            drop (nat (sint (be32 b0 b1 b2 b3))) s)"
proof -
  from assms(1) have "be32 b0 b1 b2 b3 \<noteq> 0" by auto
  with assms show ?thesis
    by (simp add: read_string8_def read_long_big_endian ebind_Inr read_bytes_def)
qed

lemma read_string16_big_endian:
  assumes "0 < sint (be32 b0 b1 b2 b3)" and "2 * nat (sint (be32 b0 b1 b2 b3)) \<le> length s"
  shows "read_string16 h (b0 # b1 # b2 # b3 # s)
     = Inr (be32 b0 b1 b2 b3,
            Some (map (\<lambda>i. be16 (s ! (2 * i)) (s ! (2 * i + 1)))
                    [0..<nat (sint (be32 b0 b1 b2 b3))]),
            drop (2 * nat (sint (be32 b0 b1 b2 b3))) s)"
proof -
  from assms(1) have "be32 b0 b1 b2 b3 \<noteq> 0" by auto
  with assms show ?thesis
    by (simp add: read_string16_def read_long_big_endian ebind_Inr read_wchars_big_endian)
qed

text \<open>
  Every header field that \<^verbatim>\<open>xda_cel_init\<close> returns is the host's own reading of the four
  bytes at its position; the positions behind the three texts depend on their lengths.
  The proof walks through the reads one by one, with a name for each value read.
\<close>

lemma ebind_block_i32_exact:
  "ebind (read_block_i32 s n e) f = Inr r \<Longrightarrow>
     0 \<le> sint n \<and> nat (sint n) * e \<le> length s
     \<and> f (take (nat (sint n) * e) s, drop (nat (sint n) * e) s) = Inr r"
  by (auto simp: ebind_Inr_iff read_block_i32_def read_bytes_Inr_iff split: if_splits)

lemma ebind_native_name:
  "ebind (read_native32 h s) f = Inr r \<Longrightarrow>
     \<exists>v. 4 \<le> length s \<and> load32 h (take 4 s) = v \<and> f (v, drop 4 s) = Inr r"
  by (auto simp: ebind_Inr_iff read_native32_Inr_iff)

lemma xda_cel_init_header_native:
  assumes "xda_cel_init h s flags = Inr r"
  shows "load32 h (take 4 s) = 64 \<and> version r = load32 h (take 4 (drop 4 s))
     \<and> num_rows r = load32 h (take 4 (drop 8 s))
     \<and> num_cols r = load32 h (take 4 (drop 12 s))
     \<and> num_cells r = load32 h (take 4 (drop 16 s))
     \<and> n_header r = load32 h (take 4 (drop 20 s))
     \<and> 0 \<le> sint (n_header r) \<and> 0 \<le> sint (n_algorithm r) \<and> 0 \<le> sint (n_parameters r)
     \<and> header r = take (nat (sint (n_header r))) (drop 24 s)
     \<and> n_algorithm r = load32 h (take 4 (drop (24 + nat (sint (n_header r))) s))
     \<and> algorithm r = take (nat (sint (n_algorithm r))) (drop (28 + nat (sint (n_header r))) s)
     \<and> n_parameters r
         = load32 h (take 4 (drop (28 + nat (sint (n_header r)) + nat (sint (n_algorithm r))) s))
     \<and> parameters r
         = take (nat (sint (n_parameters r)))
             (drop (32 + nat (sint (n_header r)) + nat (sint (n_algorithm r))) s)
     \<and> cell_margin r
         = load32 h (take 4 (drop (32 + nat (sint (n_header r)) + nat (sint (n_algorithm r))
                                      + nat (sint (n_parameters r))) s))
     \<and> num_outlier_cells r
         = load32 h (take 4 (drop (36 + nat (sint (n_header r)) + nat (sint (n_algorithm r))
                                      + nat (sint (n_parameters r))) s))
     \<and> num_masked_cells r
         = load32 h (take 4 (drop (40 + nat (sint (n_header r)) + nat (sint (n_algorithm r))
                                      + nat (sint (n_parameters r))) s))
     \<and> num_sub_grids r
         = load32 h (take 4 (drop (44 + nat (sint (n_header r)) + nat (sint (n_algorithm r))
                                      + nat (sint (n_parameters r))) s))"
  using assms
  apply (unfold xda_cel_init_def)
  apply (drule ebind_native_name, elim exE conjE, simp only: prod.case if_Inl_Inr_iff, erule conjE)
  apply (drule ebind_native_name, elim exE conjE, simp only: prod.case if_Inl_Inr_iff, erule conjE)
  apply (drule ebind_native_name, elim exE conjE, simp only: prod.case)
  apply (drule ebind_native_name, elim exE conjE, simp only: prod.case)
  apply (drule ebind_native_name, elim exE conjE, simp only: prod.case)
  apply (drule ebind_native_name, elim exE conjE, simp only: prod.case)
  apply (drule ebind_block_i32_exact, elim conjE, simp only: prod.case)
  apply (drule ebind_native_name, elim exE conjE, simp only: prod.case)
  apply (drule ebind_block_i32_exact, elim conjE, simp only: prod.case)
  apply (drule ebind_native_name, elim exE conjE, simp only: prod.case)
  apply (drule ebind_block_i32_exact, elim conjE, simp only: prod.case)
  apply (drule ebind_native_name, elim exE conjE, simp only: prod.case)
  apply (drule ebind_native_name, elim exE conjE, simp only: prod.case)
  apply (drule ebind_native_name, elim exE conjE, simp only: prod.case)
  apply (drule ebind_native_name, elim exE conjE, simp only: prod.case)
  apply (simp only: Let_def)
  apply (cases flags)
   apply (simp only: if_True sum.inject)
   apply (drule_tac t = r in sym)
   apply (thin_tac "_ \<le> length _")+
   apply (simp add: ac_simps)
  apply (simp only: if_False)
  apply (drule ebind_block_i32_step, elim exE, simp only: prod.case)
  apply (drule ebind_block_u32_step, elim exE, simp only: prod.case)
  apply (drule ebind_block_u32_step, elim exE, simp only: prod.case)
  apply (drule ebind_block_i32_step, elim exE, simp only: prod.case)
  apply (simp only: if_Inl_Inr_iff sum.inject)
  apply (erule conjE)
  apply (drule_tac t = r in sym)
  apply (thin_tac "_ \<le> length _")+
  apply (simp add: ac_simps)
  done


lemma read_native32_le:
  "read_native32 LittleEndian (b0 # b1 # b2 # b3 # s) = Inr (le32 b0 b1 b2 b3, s)"
  by (simp add: read_native32_def read_bytes_def ebind_Inr load32_def)

lemma read_block_i32_zero: "read_block_i32 s 0 e = Inr ([], s)"
  by (simp add: read_block_i32_def read_bytes_def)

lemma xda_le_example_parsed:
  "xda_cel_init LittleEndian xda_le_example True = Inr xda_le_example_header"
  by (simp add: xda_cel_init_def xda_le_example_def xda_le_example_header_def
        read_native32_le ebind_Inr read_block_i32_zero le32_def be32_def)

lemma xda_be_example_rejected:
  "xda_cel_init LittleEndian xda_be_example True = Inl BadMagic"
  by (simp add: xda_cel_init_def xda_be_example_def read_native32_le ebind_Inr
        read_block_i32_zero le32_def be32_def)

lemma buf_long_be:
  "unat off + 4 \<le> length buf \<Longrightarrow>
   buf_long h buf off = Inr (be32 (buf ! unat off) (buf ! (unat off + 1))
                               (buf ! (unat off + 2)) (buf ! (unat off + 3)))"
proof -
  assume a: "unat off + 4 \<le> length buf"
  then have "take 4 (drop (unat off) buf)
      = [buf ! unat off, buf ! (unat off + 1), buf ! (unat off + 2), buf ! (unat off + 3)]"
    by (intro nth_equalityI) (auto simp: less_Suc_eq numeral_eq_Suc)
  with a show ?thesis by (simp add: buf_long_def ntohl_load32)
qed

lemma upt_0_2_Suc: "[0..<2] = [0, Suc 0]"
  by code_simp

lemma read_block_i32_one: "read_block_i32 (a # s) 1 (Suc 0) = Inr ([a], s)"
  by (simp add: read_block_i32_def read_bytes_def)

lemma read_block_i32_two: "read_block_i32 (a # b # s) 2 (Suc 0) = Inr ([a, b], s)"
  by (simp add: read_block_i32_def read_bytes_def)

lemma xda_le_full_parsed:
  "xda_cel_init LittleEndian xda_le_full True = Inr xda_le_full_header"
  by (simp add: xda_cel_init_def xda_le_full_def xda_le_full_header_def
        read_native32_le ebind_Inr read_block_i32_one read_block_i32_two le32_def be32_def)

text \<open>
  C3, as the code has it. Every scalar that the code passes through \<^verbatim>\<open>ntohl\<close> or
  \<^verbatim>\<open>ntohs\<close> is the big-endian value of its bytes on a host of either byte order: the
  integers of \<^verbatim>\<open>read_long\<close>, the bits of \<^verbatim>\<open>read_float\<close>, the lengths of \<^verbatim>\<open>read_string8\<close>
  and \<^verbatim>\<open>read_string16\<close> and the code units of the latter, and the fields taken from a
  row buffer. The header fields of the XDA reader are not converted: whenever
  \<^verbatim>\<open>xda_cel_init\<close> succeeds, the magic number, the version, the rows, the columns, the
  cell count, the three text lengths, the margin and the three counts are the host's
  native reading of their four bytes, which on a little-endian host is the
  little-endian value.
\<close>

theorem byte_order_of_decoded_integers:
  "ntohl h (load32 h [b0, b1, b2, b3]) = be32 b0 b1 b2 b3
   \<and> ntohs h (load16 h [d0, d1]) = be16 d0 d1
   \<and> read_long h (b0 # b1 # b2 # b3 # s) = Inr (be32 b0 b1 b2 b3, s)
   \<and> read_float h fob (b0 # b1 # b2 # b3 # s) = Inr (fob (be32 b0 b1 b2 b3), s)
   \<and> (0 < sint (be32 b0 b1 b2 b3) \<and> nat (sint (be32 b0 b1 b2 b3)) \<le> length s \<longrightarrow>
        read_string8 h (b0 # b1 # b2 # b3 # s)
          = Inr (be32 b0 b1 b2 b3, Some (take (nat (sint (be32 b0 b1 b2 b3))) s),
                 drop (nat (sint (be32 b0 b1 b2 b3))) s))
   \<and> (0 < sint (be32 b0 b1 b2 b3) \<and> 2 * nat (sint (be32 b0 b1 b2 b3)) \<le> length s \<longrightarrow>
        read_string16 h (b0 # b1 # b2 # b3 # s)
          = Inr (be32 b0 b1 b2 b3,
                 Some (map (\<lambda>i. be16 (s ! (2 * i)) (s ! (2 * i + 1)))
                         [0..<nat (sint (be32 b0 b1 b2 b3))]),
                 drop (2 * nat (sint (be32 b0 b1 b2 b3))) s))
   \<and> (unat off + 4 \<le> length buf \<longrightarrow>
        buf_long h buf off = Inr (be32 (buf ! unat off) (buf ! (unat off + 1))
                                    (buf ! (unat off + 2)) (buf ! (unat off + 3))))
   \<and> (xda_cel_init h t flags = Inr r \<longrightarrow>
        load32 h (take 4 t) = 64 \<and> version r = load32 h (take 4 (drop 4 t))
      \<and> num_rows r = load32 h (take 4 (drop 8 t))
      \<and> num_cols r = load32 h (take 4 (drop 12 t))
      \<and> num_cells r = load32 h (take 4 (drop 16 t))
      \<and> n_header r = load32 h (take 4 (drop 20 t))
      \<and> 0 \<le> sint (n_header r) \<and> 0 \<le> sint (n_algorithm r) \<and> 0 \<le> sint (n_parameters r)
      \<and> header r = take (nat (sint (n_header r))) (drop 24 t)
      \<and> n_algorithm r = load32 h (take 4 (drop (24 + nat (sint (n_header r))) t))
      \<and> algorithm r = take (nat (sint (n_algorithm r))) (drop (28 + nat (sint (n_header r))) t)
      \<and> n_parameters r
          = load32 h (take 4 (drop (28 + nat (sint (n_header r)) + nat (sint (n_algorithm r))) t))
      \<and> parameters r
          = take (nat (sint (n_parameters r)))
              (drop (32 + nat (sint (n_header r)) + nat (sint (n_algorithm r))) t)
      \<and> cell_margin r
          = load32 h (take 4 (drop (32 + nat (sint (n_header r)) + nat (sint (n_algorithm r))
                                       + nat (sint (n_parameters r))) t))
      \<and> num_outlier_cells r
          = load32 h (take 4 (drop (36 + nat (sint (n_header r)) + nat (sint (n_algorithm r))
                                       + nat (sint (n_parameters r))) t))
      \<and> num_masked_cells r
          = load32 h (take 4 (drop (40 + nat (sint (n_header r)) + nat (sint (n_algorithm r))
                                       + nat (sint (n_parameters r))) t))
      \<and> num_sub_grids r
          = load32 h (take 4 (drop (44 + nat (sint (n_header r)) + nat (sint (n_algorithm r))
                                       + nat (sint (n_parameters r))) t)))
   \<and> load32 LittleEndian [c0, c1, c2, c3] = le32 c0 c1 c2 c3
   \<and> load16 LittleEndian [c0, c1] = be16 c1 c0"
proof (intro conjI impI)
  show "ntohl h (load32 h [b0, b1, b2, b3]) = be32 b0 b1 b2 b3"
    by (rule ntohl_load32)
  show "ntohs h (load16 h [d0, d1]) = be16 d0 d1"
    by (rule ntohs_load16)
  show "read_long h (b0 # b1 # b2 # b3 # s) = Inr (be32 b0 b1 b2 b3, s)"
    by (rule read_long_big_endian)
  show "read_float h fob (b0 # b1 # b2 # b3 # s) = Inr (fob (be32 b0 b1 b2 b3), s)"
    by (rule read_float_big_endian)
  show "load32 LittleEndian [c0, c1, c2, c3] = le32 c0 c1 c2 c3"
    by (simp add: load32_def)
  show "load16 LittleEndian [c0, c1] = be16 c1 c0"
    by (simp add: load16_def)
next
  assume "0 < sint (be32 b0 b1 b2 b3) \<and> nat (sint (be32 b0 b1 b2 b3)) \<le> length s"
  then show "read_string8 h (b0 # b1 # b2 # b3 # s)
          = Inr (be32 b0 b1 b2 b3, Some (take (nat (sint (be32 b0 b1 b2 b3))) s),
                 drop (nat (sint (be32 b0 b1 b2 b3))) s)"
    by (intro read_string8_big_endian) simp_all
next
  assume "0 < sint (be32 b0 b1 b2 b3) \<and> 2 * nat (sint (be32 b0 b1 b2 b3)) \<le> length s"
  then show "read_string16 h (b0 # b1 # b2 # b3 # s)
          = Inr (be32 b0 b1 b2 b3,
                 Some (map (\<lambda>i. be16 (s ! (2 * i)) (s ! (2 * i + 1)))
                         [0..<nat (sint (be32 b0 b1 b2 b3))]),
                 drop (2 * nat (sint (be32 b0 b1 b2 b3))) s)"
    by (intro read_string16_big_endian) simp_all
next
  assume "unat off + 4 \<le> length buf"
  then show "buf_long h buf off = Inr (be32 (buf ! unat off) (buf ! (unat off + 1))
                                    (buf ! (unat off + 2)) (buf ! (unat off + 3)))"
    by (rule buf_long_be)
next
  assume x: "xda_cel_init h t flags = Inr r"
  note n = xda_cel_init_header_native [OF x]
  from n show "load32 h (take 4 t) = 64" by (elim conjE)
  from n show "version r = load32 h (take 4 (drop 4 t))" by (elim conjE)
  from n show "num_rows r = load32 h (take 4 (drop 8 t))" by (elim conjE)
  from n show "num_cols r = load32 h (take 4 (drop 12 t))" by (elim conjE)
  from n show "num_cells r = load32 h (take 4 (drop 16 t))" by (elim conjE)
  from n show "n_header r = load32 h (take 4 (drop 20 t))" by (elim conjE)
  from n show "0 \<le> sint (n_header r)" by (elim conjE)
  from n show "0 \<le> sint (n_algorithm r)" by (elim conjE)
  from n show "0 \<le> sint (n_parameters r)" by (elim conjE)
  from n show "header r = take (nat (sint (n_header r))) (drop 24 t)" by (elim conjE)
  from n show "n_algorithm r = load32 h (take 4 (drop (24 + nat (sint (n_header r))) t))"
    by (elim conjE)
  from n show "algorithm r = take (nat (sint (n_algorithm r))) (drop (28 + nat (sint (n_header r))) t)"
    by (elim conjE)
  from n show "n_parameters r
      = load32 h (take 4 (drop (28 + nat (sint (n_header r)) + nat (sint (n_algorithm r))) t))"
    by (elim conjE)
  from n show "parameters r
      = take (nat (sint (n_parameters r)))
          (drop (32 + nat (sint (n_header r)) + nat (sint (n_algorithm r))) t)"
    by (elim conjE)
  from n show "cell_margin r
      = load32 h (take 4 (drop (32 + nat (sint (n_header r)) + nat (sint (n_algorithm r))
                                   + nat (sint (n_parameters r))) t))"
    by (elim conjE)
  from n show "num_outlier_cells r
      = load32 h (take 4 (drop (36 + nat (sint (n_header r)) + nat (sint (n_algorithm r))
                                   + nat (sint (n_parameters r))) t))"
    by (elim conjE)
  from n show "num_masked_cells r
      = load32 h (take 4 (drop (40 + nat (sint (n_header r)) + nat (sint (n_algorithm r))
                                   + nat (sint (n_parameters r))) t))"
    by (elim conjE)
  from n show "num_sub_grids r
      = load32 h (take 4 (drop (44 + nat (sint (n_header r)) + nat (sint (n_algorithm r))
                                   + nat (sint (n_parameters r))) t))"
    by (elim conjE)
qed

theorem byte_order_of_decoded_integers_witness:
  "0 < sint (be32 0 0 0 2) \<and> nat (sint (be32 0 0 0 2)) \<le> length [0, 65, 0, 66, 7 :: u8]
   \<and> 2 * nat (sint (be32 0 0 0 2)) \<le> length [0, 65, 0, 66, 7 :: u8]
   \<and> read_string8 LittleEndian wide_example = Inr (2, Some [0, 65], [0, 66, 7])
   \<and> read_string16 LittleEndian wide_example = Inr (2, Some [65, 66], [7])
   \<and> unat (12 :: u32) + 4 \<le> length row_long
   \<and> buf_long LittleEndian row_long 12 = Inr 1
   \<and> xda_cel_init LittleEndian xda_le_full True = Inr xda_le_full_header
   \<and> n_algorithm xda_le_full_header = load32 LittleEndian (take 4 (drop 26 xda_le_full))
   \<and> n_algorithm xda_le_full_header = 1
   \<and> cell_margin xda_le_full_header = load32 LittleEndian (take 4 (drop 36 xda_le_full))
   \<and> cell_margin xda_le_full_header = 5
   \<and> num_sub_grids xda_le_full_header = load32 LittleEndian (take 4 (drop 48 xda_le_full))
   \<and> num_sub_grids xda_le_full_header = 3"
proof -
  have f: "n_header xda_le_full_header = 2" "n_algorithm xda_le_full_header = 1"
    "n_parameters xda_le_full_header = 1" "cell_margin xda_le_full_header = 5"
    "num_sub_grids xda_le_full_header = 3"
    by (simp_all add: xda_le_full_header_def)
  have l: "be32 0 0 0 2 = 2" "be32 0 0 0 1 = 1" "be16 0 65 = 65" "be16 0 66 = 66"
    by (simp_all add: be32_def be16_def)
  note t = byte_order_of_decoded_integers
      [of LittleEndian 0 0 0 2 0 0 "[0, 65, 0, 66, 7]" "\<lambda>w. 0" 12 row_long
        xda_le_full True xda_le_full_header 0 0 0 0]
  from t have s8: "read_string8 LittleEndian wide_example = Inr (2, Some [0, 65], [0, 66, 7])"
    by (simp add: l wide_example_def)
  from t have s16: "read_string16 LittleEndian wide_example = Inr (2, Some [65, 66], [7])"
    by (simp add: l wide_example_def upt_0_2_Suc)
  from t have bl: "buf_long LittleEndian row_long 12 = Inr 1"
    by (simp add: row_long_def l)
  from t xda_le_full_parsed
  have x: "n_algorithm xda_le_full_header = load32 LittleEndian (take 4 (drop 26 xda_le_full))"
    "cell_margin xda_le_full_header = load32 LittleEndian (take 4 (drop 36 xda_le_full))"
    "num_sub_grids xda_le_full_header = load32 LittleEndian (take 4 (drop 48 xda_le_full))"
    by (simp_all add: f)
  from s8 s16 bl x xda_le_full_parsed show ?thesis
    by (simp add: f l row_long_def)
qed

text \<open>
  C3 as stated fails: on a little-endian host the reader accepts a header whose fields are
  stored little-endian and takes the rows from the bytes 02 00 00 00 as 2, where the
  big-endian reading is 33554432; the same header stored big-endian is rejected at the
  magic number.
\<close>

theorem xda_header_not_big_endian:
  "xda_cel_init LittleEndian xda_le_example True = Inr xda_le_example_header
   \<and> num_rows xda_le_example_header = 2
   \<and> be32 2 0 0 0 = 33554432
   \<and> xda_cel_init LittleEndian xda_be_example True = Inl BadMagic"
  by (simp add: xda_le_example_parsed xda_be_example_rejected xda_le_example_header_def
        be32_def)

section \<open>Column offsets of a data set\<close>

lemma col_offsets_loop_eq:
  "col_offsets_loop a cs =
     (map (\<lambda>i. a + sum_list (map size_c (take i cs))) [0..<length cs],
      a + sum_list (map size_c cs))"
proof (induction cs arbitrary: a)
  case Nil
  show ?case by simp
next
  case (Cons c cs)
  have shift: "map (\<lambda>i. a + sum_list (map size_c (take i (c # cs)))) [0..<length (c # cs)]
      = a # map (\<lambda>i. (a + size_c c) + sum_list (map size_c (take i cs))) [0..<length cs]"
    by (simp add: upt_conv_Cons map_Suc_upt [symmetric] add.assoc del: upt_Suc)
  show ?case
    by (simp only: col_offsets_loop.simps Cons.IH shift) (simp add: add.assoc)
qed

lemma sum_list_word_of_int:
  "sum_list (map size_c cs) = (word_of_int (\<Sum>c\<leftarrow>cs. sint (size_c c)) :: u32)"
  by (induction cs) simp_all

lemma uint_sum_list_sizes:
  "uint (sum_list (map size_c cs)) = (\<Sum>c\<leftarrow>cs. sint (size_c c)) mod 2 ^ 32"
  by (simp add: sum_list_word_of_int uint_word_of_int_eq take_bit_eq_mod)

lemma sum_list_take_le:
  assumes "\<forall>c \<in> set cs. 0 \<le> f c"
  shows "0 \<le> (\<Sum>c\<leftarrow>take i cs. f c) \<and> (\<Sum>c\<leftarrow>take i cs. (f c :: int)) \<le> (\<Sum>c\<leftarrow>cs. f c)"
proof -
  have "(\<Sum>c\<leftarrow>cs. f c) = (\<Sum>c\<leftarrow>take i cs. f c) + (\<Sum>c\<leftarrow>drop i cs. f c)"
    by (metis append_take_drop_id map_append sum_list_append)
  moreover have "0 \<le> (\<Sum>c\<leftarrow>drop i cs. f c)"
    using assms by (intro sum_list_nonneg) (auto dest: in_set_dropD)
  moreover have "0 \<le> (\<Sum>c\<leftarrow>take i cs. f c)"
    using assms by (intro sum_list_nonneg) (auto dest: in_set_takeD)
  ultimately show ?thesis by simp
qed

text \<open>
  C8, as the code has it. The widths are \<^verbatim>\<open>int32_t\<close> fields and the row width and the
  offsets are \<^verbatim>\<open>uint32_t\<close>, so the sums are taken modulo \<open>2\<^sup>3\<^sup>2\<close>: after the layout step
  the row width is the sum of the widths of all columns modulo \<open>2\<^sup>3\<^sup>2\<close>, and the offset
  of column \<open>i\<close> is the sum of the widths of the columns before it modulo \<open>2\<^sup>3\<^sup>2\<close>, the
  first being 0; with no column the width is 0 and there is no offset. When no width is
  negative and the widths add up to less than \<open>2\<^sup>3\<^sup>2\<close>, the row width and the offsets are
  the sums themselves.
\<close>

theorem row_width_and_column_offsets:
  "uint (n_buffer (agcc_data_set_layout ds))
     = (\<Sum>c\<leftarrow>col_headers ds. sint (size_c c)) mod 2 ^ 32
   \<and> length (col_offsets (agcc_data_set_layout ds)) = length (col_headers ds)
   \<and> (\<forall>i < length (col_headers ds).
        uint (col_offsets (agcc_data_set_layout ds) ! i)
          = (\<Sum>c\<leftarrow>take i (col_headers ds). sint (size_c c)) mod 2 ^ 32)
   \<and> ((\<forall>c \<in> set (col_headers ds). 0 \<le> sint (size_c c))
        \<and> (\<Sum>c\<leftarrow>col_headers ds. sint (size_c c)) < 2 ^ 32
      \<longrightarrow> uint (n_buffer (agcc_data_set_layout ds)) = (\<Sum>c\<leftarrow>col_headers ds. sint (size_c c))
        \<and> (\<forall>i < length (col_headers ds).
              uint (col_offsets (agcc_data_set_layout ds) ! i)
                = (\<Sum>c\<leftarrow>take i (col_headers ds). sint (size_c c))))
   \<and> col_headers (agcc_data_set_layout ds) = col_headers ds"
proof (intro conjI allI impI)
  show w: "uint (n_buffer (agcc_data_set_layout ds))
      = (\<Sum>c\<leftarrow>col_headers ds. sint (size_c c)) mod 2 ^ 32"
    by (simp add: agcc_data_set_layout_def col_offsets_loop_eq uint_sum_list_sizes)
  show "length (col_offsets (agcc_data_set_layout ds)) = length (col_headers ds)"
    by (simp add: agcc_data_set_layout_def col_offsets_loop_eq)
  show "col_headers (agcc_data_set_layout ds) = col_headers ds"
    by (simp add: agcc_data_set_layout_def col_offsets_loop_eq)
  show o: "uint (col_offsets (agcc_data_set_layout ds) ! i)
      = (\<Sum>c\<leftarrow>take i (col_headers ds). sint (size_c c)) mod 2 ^ 32"
    if "i < length (col_headers ds)" for i
    using that by (simp add: agcc_data_set_layout_def col_offsets_loop_eq uint_sum_list_sizes)
  assume h: "(\<forall>c \<in> set (col_headers ds). 0 \<le> sint (size_c c))
        \<and> (\<Sum>c\<leftarrow>col_headers ds. sint (size_c c)) < 2 ^ 32"
  then have nn: "\<forall>c \<in> set (col_headers ds). 0 \<le> sint (size_c c)"
    and lt: "(\<Sum>c\<leftarrow>col_headers ds. sint (size_c c)) < 2 ^ 32" by simp_all
  from sum_list_take_le [OF nn, of "length (col_headers ds)"] lt
  show "uint (n_buffer (agcc_data_set_layout ds)) = (\<Sum>c\<leftarrow>col_headers ds. sint (size_c c))"
    by (simp add: w)
  show "uint (col_offsets (agcc_data_set_layout ds) ! i)
      = (\<Sum>c\<leftarrow>take i (col_headers ds). sint (size_c c))"
    if "i < length (col_headers ds)" for i
    using sum_list_take_le [OF nn, of i] lt o [OF that] by simp
qed

theorem row_width_and_column_offsets_witness:
  "map (\<lambda>c. sint (size_c c)) example_cols = [11, 1, 4, 4, 4, 1]
   \<and> (\<Sum>c\<leftarrow>example_cols. sint (size_c c)) < 2 ^ 32
   \<and> uint (n_buffer (agcc_data_set_layout (example_ds []))) = 25
   \<and> (2 :: nat) < length (col_headers (example_ds []))
   \<and> uint (col_offsets (agcc_data_set_layout (example_ds [])) ! 2) = 12"
proof -
  have c: "col_headers (example_ds []) = example_cols" by (simp add: example_ds_def)
  have a: "(\<forall>c \<in> set example_cols. 0 \<le> sint (size_c c))
      \<and> (\<Sum>c\<leftarrow>example_cols. sint (size_c c)) < 2 ^ 32"
    by (simp add: example_cols_def)
  have s: "(\<Sum>c\<leftarrow>example_cols. sint (size_c c)) = 25"
    "(\<Sum>c\<leftarrow>take 2 example_cols. sint (size_c c)) = 12" "length example_cols = 6"
    by (simp_all add: example_cols_def)
  have m: "map (\<lambda>c. sint (size_c c)) example_cols = [11, 1, 4, 4, 4, 1]"
    by (simp add: example_cols_def)
  from row_width_and_column_offsets [of "example_ds []"] a s m
  show ?thesis by (simp add: c)
qed

text \<open>
  C8 as stated fails: with the widths 2147483647, 2147483647 and 2 the recorded row
  width is 0, and the sum of the widths is 4294967296.
\<close>

theorem row_width_wraps:
  "n_buffer (agcc_data_set_layout ((example_ds [])\<lparr>col_headers := wide_cols\<rparr>)) = 0
   \<and> col_offsets (agcc_data_set_layout ((example_ds [])\<lparr>col_headers := wide_cols\<rparr>))
       = [0, 0x7FFFFFFF, 0xFFFFFFFE]
   \<and> (\<Sum>c\<leftarrow>wide_cols. sint (size_c c)) = 4294967296
   \<and> (\<Sum>c\<leftarrow>wide_cols. int (unat (size_c c))) = 4294967296"
  by (simp add: agcc_data_set_layout_def wide_cols_def example_ds_def)

section \<open>Contrast and size\<close>

lemma log2_signals_eq:
  "log2_signals nx ny = (log 2 nx - log 2 ny, (log 2 nx + log 2 ny) / 2)"
  by (simp add: log2_signals_def M_LOG2E_def log_def Let_def)

lemma log2_100_25: "log 2 100 - log 2 25 = (2::real)"
proof -
  have "log 2 (100 / 25 :: real) = log 2 100 - log 2 25"
    by (rule log_divide_pos) simp_all
  moreover have "log 2 (100 / 25 :: real) = log 2 (2 ^ 2)" by simp
  moreover have "log 2 (2 ^ 2 :: real) = 2"
    using log_pow_cancel [of 2 2] by simp
  ultimately show ?thesis by simp
qed

lemma log2_2500: "log 2 100 + log 2 25 = (log 2 2500 :: real)"
proof -
  have "log 2 (100 * 25 :: real) = log 2 100 + log 2 25"
    by (rule log_mult_pos) simp_all
  then show ?thesis by simp
qed

lemma log2_2500_lower: "(11.28 :: real) < log 2 2500"
proof -
  have "(2 :: real) ^ 282 < 2500 ^ 25" by simp
  moreover have "log 2 ((2 :: real) ^ 282) < log 2 (2500 ^ 25) \<longleftrightarrow> (2 :: real) ^ 282 < 2500 ^ 25"
    by (rule log_less_cancel_iff) simp_all
  ultimately have "log 2 ((2 :: real) ^ 282) < log 2 (2500 ^ 25)"
    by (rule iffD2 [rotated])
  moreover have "log 2 ((2 :: real) ^ 282) = 282"
    using log_pow_cancel [of 2 282] by simp
  moreover have "log 2 ((2500 :: real) ^ 25) = 25 * log 2 2500"
    using log_nat_power [of 2500 2 25] by simp
  ultimately have "282 / 25 < log 2 (2500 :: real)" by linarith
  then show ?thesis by simp
qed

lemma log2_2500_upper: "log 2 2500 < (11.3 :: real)"
proof -
  have "(2500 :: real) ^ 10 < 2 ^ 113" by simp
  moreover have "log 2 ((2500 :: real) ^ 10) < log 2 (2 ^ 113) \<longleftrightarrow> (2500 :: real) ^ 10 < 2 ^ 113"
    by (rule log_less_cancel_iff) simp_all
  ultimately have "log 2 ((2500 :: real) ^ 10) < log 2 (2 ^ 113)"
    by (rule iffD2 [rotated])
  moreover have "log 2 ((2 :: real) ^ 113) = 113"
    using log_pow_cancel [of 2 113] by simp
  moreover have "log 2 ((2500 :: real) ^ 10) = 10 * log 2 2500"
    using log_nat_power [of 2500 2 10] by simp
  ultimately show ?thesis by linarith
qed

lemma example_signals:
  "fst (log2_signals 100 25) = 2 \<and> snd (log2_signals 100 25) = log 2 (100 * 25) / 2
   \<and> 5.64 < snd (log2_signals 100 25) \<and> snd (log2_signals 100 25) < 5.65"
  using log2_2500_lower log2_2500_upper
  by (simp add: log2_signals_eq log2_100_25 log2_2500)

section \<open>One sample of a binary advance\<close>

lemma ebind_InrE:
  assumes "ebind m f = Inr r"
  obtains x where "m = Inr x" and "f x = Inr r"
  using assms by (cases m) (simp_all add: ebind_def)

lemma if_Inr_None_iff: "((if c then Inr None else m) = Inr (Some y)) = (\<not> c \<and> m = Inr (Some y))"
  by simp

lemma nibble_bound: "unat ((w :: u8) AND 0x0F) < 16"
proof -
  have "unat (w AND 15) \<le> unat (15 :: u8)"
    by (rule word_and_le1 [THEN word_le_nat_alt [THEN iffD1]])
  then show ?thesis by simp
qed

lemma varitr_loop_sample_SomeD:
  assumes "varitr_loop_sample h fob i v dss = Inr (Some (v', dss'))"
  shows "\<exists>src n g a b.
     check_n_probe_set_id (probe_set_id v) src n = Inr (probe_set_id v')
   \<and> gts v' = (gts v)[i := gt ! g] \<and> g < 16
   \<and> (\<not> is_axiom v ! i \<longrightarrow>
        norm_x_arr v' = (norm_x_arr v)[i := a] \<and> norm_y_arr v' = (norm_y_arr v)[i := b]
      \<and> delta_arr v' = (delta_arr v)[i := fst (log2_signals a b)]
      \<and> size_arr v' = (size_arr v)[i := snd (log2_signals a b)])"
  using assms
  apply (unfold varitr_loop_sample_def)
  apply (simp only: if_Inl_Inr_iff Let_def if_Inr_None_iff)
  apply (elim conjE)
  apply (erule ebind_InrE, simp only: prod.case split_paired_all if_Inl_Inr_iff)
  apply (erule ebind_InrE)
  apply (erule ebind_InrE)
  apply (erule ebind_InrE)
  apply (erule ebind_InrE, simp only: if_Inl_Inr_iff, elim conjE)
  apply (erule ebind_InrE)
  apply (erule ebind_InrE)
  apply (erule ebind_InrE)
  apply (erule ebind_InrE)
  apply (erule ebind_InrE)
  apply (erule ebind_InrE)
  subgoal for row rest o0 n psid o1 o2 c o3 u3 o4 u4
    apply (rule exI [of _ "map byte_char (drop (unat o0 + 4) row)"])
    apply (rule exI [of _ "unat n"])
    apply (rule exI [of _ "unat (row ! unat o1 AND 0x0F)"])
    apply (rule exI [of _ "fob u3"])
    apply (rule exI [of _ "fob u4"])
    apply (cases "is_axiom v ! i")
     apply (auto simp: nibble_bound split: prod.splits)
    done
  done

section \<open>Identifier checks\<close>


lemma strncmp_c_True_length:
  "strncmp_c d src n = Inr True \<Longrightarrow> NUL \<notin> set (take n src) \<Longrightarrow> n \<le> length d"
proof (induction d src n rule: strncmp_c.induct)
  case (1 d src)
  then show ?case by simp
next
  case (2 d n)
  then show ?case by simp
next
  case (3 c cs n)
  then show ?case by simp
next
  case (4 a as c cs n)
  then show ?case by (simp split: if_splits)
qed









section \<open>The summary table\<close>

lemma sbind_SomeE:
  assumes "sbind m f = Inr (Some r)"
  obtains x where "m = Inr (Some x)" and "f x = Inr (Some r)"
  using assms by (auto simp: sbind_def split: sum.splits option.splits)

lemma read_summary_companion_SomeD:
  assumes "read_summary_companion strtof v fieldsA s1 = Inr (Some v')"
  shows "\<exists>fields src.
     length fields = 1 + nsmpl v
   \<and> check_probe_set_id (probe_set_id v) src = Inr (probe_set_id v')
   \<and> norm_x_arr v' = map strtof (tl fieldsA)
   \<and> norm_y_arr v' = map strtof (tl fields)
   \<and> delta_arr v' = map (\<lambda>(x, y). fst (log2_signals x y)) (zip (norm_x_arr v') (norm_y_arr v'))
   \<and> size_arr v' = map (\<lambda>(x, y). snd (log2_signals x y)) (zip (norm_x_arr v') (norm_y_arr v'))"
proof (cases "hts_getline s1")
  case None
  with assms show ?thesis by (simp add: read_summary_companion_def)
next
  case (Some p)
  obtain line s2 where p: "p = (line, s2)" by (cases p)
  show ?thesis
  proof (cases "line = []")
    case True
    with assms Some p show ?thesis
      by (simp add: read_summary_companion_def)
  next
    case nonempty: False
    show ?thesis
    proof (cases "length (ksplit_core line TAB) \<noteq> 1 + nsmpl v")
      case True
      with assms Some p nonempty show ?thesis
        by (simp add: read_summary_companion_def Let_def)
    next
      case cols: False
      show ?thesis
      proof (cases "length (hd (ksplit_core line TAB)) < 2")
        case True
        with assms Some p nonempty cols show ?thesis
          by (simp add: read_summary_companion_def Let_def)
      next
        case False
        with assms Some p nonempty cols show ?thesis
          apply (simp add: read_summary_companion_def Let_def)
          apply (erule ebind_InrE)
          apply (rule exI [of _ "ksplit_core line TAB"])
          apply (auto simp: comp_def split_def)
          done
      qed
    qed
  qed
qed

lemma read_summary_SomeD:
  assumes "read_summary strtof v s = Inr (Some v')"
  shows "\<exists>fieldsA s1. summary_seek (nsmpl v) s = Inr (Some (fieldsA, s1))
     \<and> read_summary_companion strtof v fieldsA s1 = Inr (Some v')"
  using assms unfolding read_summary_def
  by (erule_tac sbind_SomeE) auto


lemma summary_seek_line:
  assumes "hts_getline s = Some (line, rest)"
    and "ksplit_core line TAB = (p @ ''-A'') # fs"
    and "length fs = n"
    and "length p \<le> MAX_LENGTH_PROBE_SET_ID"
    and "min (length p + 2) (length rest) \<le> MAX_LENGTH_PROBE_SET_ID"
  shows "summary_seek n s =
     (if take (length p + 2) rest \<noteq> p @ ''-B'' then summary_seek n rest
      else Inr (Some (p # fs, rest)))"
proof -
  let ?buf = "take (length p + 2) rest"
  have eq: "(length ?buf < length p + 2 \<or> take (length p) ?buf \<noteq> p
             \<or> ?buf ! length p \<noteq> CHR ''-'' \<or> ?buf ! (length p + 1) \<noteq> CHR ''B'')
            \<longleftrightarrow> ?buf \<noteq> p @ ''-B''"
  proof (cases "length ?buf < length p + 2")
    case True
    then show ?thesis by auto
  next
    case False
    then have len: "length rest \<ge> length p + 2" by simp
    then have "take (Suc (Suc (length p))) rest
        = take (length p) rest @ [rest ! length p, rest ! Suc (length p)]"
      by (simp add: take_Suc_conv_app_nth)
    then have decomp: "?buf = take (length p) rest @ [rest ! length p, rest ! Suc (length p)]"
      by simp
    have nths: "?buf ! length p = rest ! length p" "?buf ! (length p + 1) = rest ! Suc (length p)"
      "take (length p) ?buf = take (length p) rest"
      by (simp_all add: min_def)
    have "length (take (length p) rest) = length p" using len by simp
    then have "take (length p) rest @ [rest ! length p, rest ! Suc (length p)] = p @ ''-B''
      \<longleftrightarrow> take (length p) rest = p \<and> rest ! length p = CHR ''-'' \<and> rest ! Suc (length p) = CHR ''B''"
      by (subst append_eq_append_conv) auto
    with False decomp nths show ?thesis by simp
  qed
  have fit: "\<not> MAX_LENGTH_PROBE_SET_ID < length ?buf"
    using assms(5) by (auto simp: min_def split: if_splits)
  have unfold: "summary_seek n s =
     (if length ?buf < length p + 2 \<or> take (length p) ?buf \<noteq> p
             \<or> ?buf ! length p \<noteq> CHR ''-'' \<or> ?buf ! (length p + 1) \<noteq> CHR ''B''
      then summary_seek n rest else Inr (Some (p # fs, rest)))"
    using assms(1-4) fit by (subst summary_seek.simps) (auto simp: Let_def nth_append)
  show ?thesis
    unfolding unfold eq ..
qed

section \<open>Evaluating the examples\<close>

lemma strncpy_c_step:
  "0 < n \<Longrightarrow> strncpy_c (c # cs) n =
     (if c = NUL then Inr [] else ebind (strncpy_c cs (n - 1)) (\<lambda>r. Inr (c # r)))"
  by (cases n) simp_all

lemma strncmp_c_step:
  "0 < n \<Longrightarrow> strncmp_c (a # as) (c # cs) n =
     (if a \<noteq> c then Inr False else strncmp_c as cs (n - 1))"
  by (cases n) simp_all

lemma strncmp_c_end: "0 < n \<Longrightarrow> strncmp_c [] (c # cs) n = Inr (c = NUL)"
  by (cases n) simp_all

lemma example_id: "map byte_char [65, 88, 45, 49, 50, 51, 52] = ''AX-1234''"
  by code_simp

lemma upt_0_2: "[0..<2] = [0, 1]"
  by code_simp

text \<open>The binary example, sample by sample.\<close>

lemma cc_example_sample0:
  "varitr_loop_sample LittleEndian example_fob 0 (cc_example\<lparr>probe_set_id := [], nrow := 1\<rparr>)
     [example_ds row_long, example_ds row_short]
   = Inr (Some (cc_example\<lparr>nrow := 1, probe_set_id := ''AX-1234'', gts := [GT_AA, 0],
                  conf_arr := [1, 0], norm_x_arr := [100, 0], norm_y_arr := [25, 0],
                  delta_arr := [fst (log2_signals 100 25), 0],
                  size_arr := [snd (log2_signals 100 25), 0]\<rparr>,
                [(example_ds row_long)\<lparr>fp := [], buffer := row_long\<rparr>, example_ds row_short]))"
  by (simp add: varitr_loop_sample_def read_bytes_def ebind_Inr col_offset_def buf_long_be
        be32_def Let_def check_n_probe_set_id_def MAX_LENGTH_PROBE_SET_ID_def
        NUL_def strncpy_c_step split_beta
        cc_example_def example_ds_def row_long_def example_fob_def gt_def
        example_id [simplified])

lemma cc_example_sample1:
  "varitr_loop_sample LittleEndian example_fob (Suc 0)
     (cc_example\<lparr>nrow := 1, probe_set_id := ''AX-1234'', gts := [GT_AA, 0],
                  conf_arr := [1, 0], norm_x_arr := [100, 0], norm_y_arr := [25, 0],
                  delta_arr := [fst (log2_signals 100 25), 0],
                  size_arr := [snd (log2_signals 100 25), 0]\<rparr>)
     [(example_ds row_long)\<lparr>fp := [], buffer := row_long\<rparr>, example_ds row_short]
   = Inr (Some (cc_example_result\<lparr>data_sets := data_sets cc_example\<rparr>,
                [(example_ds row_long)\<lparr>fp := [], buffer := row_long\<rparr>,
                 (example_ds row_short)\<lparr>fp := [], buffer := row_short\<rparr>]))"
  by (simp add: varitr_loop_sample_def read_bytes_def ebind_Inr col_offset_def buf_long_be
        be32_def Let_def check_n_probe_set_id_def MAX_LENGTH_PROBE_SET_ID_def
        NUL_def strncmp_c_step strncmp_c_end split_beta
        cc_example_def cc_example_result_def example_ds_def row_short_def example_fob_def gt_def
        example_id [simplified])

lemma cc_example_run:
  "varitr_loop LittleEndian example_fob strtol strtof cc_example = Inr (Some cc_example_result)"
proof -
  have "varitr_loop LittleEndian example_fob strtol strtof cc_example
      = varitr_loop_samples LittleEndian example_fob [0, 1]
          (cc_example\<lparr>probe_set_id := [], nrow := 1\<rparr>)
          [example_ds row_long, example_ds row_short]"
    by (simp add: varitr_loop_def varitr_loop_cc_def cc_example_def upt_0_2)
  also have "\<dots> = Inr (Some cc_example_result)"
    by (simp add: cc_example_sample0 cc_example_sample1 ebind_Inr)
       (simp add: cc_example_result_def cc_example_def)
  finally show ?thesis .
qed

lemma upt_0_16: "[0..<16] = [0, 1, 2, 3, 4, 5, 6, 7, 8, 9, 10, 11, 12, 13, 14, 15]"
  by code_simp

lemma gt_entries:
  assumes "c < 16"
  shows "(gt ! c = GT_AA \<longleftrightarrow> c = 6) \<and> (gt ! c = GT_BB \<longleftrightarrow> c = 7) \<and> (gt ! c = GT_AB \<longleftrightarrow> c = 8)
       \<and> (gt ! c = GT_NC \<longleftrightarrow> c \<noteq> 6 \<and> c \<noteq> 7 \<and> c \<noteq> 8)"
proof -
  from assms have "c \<in> set [0..<16]" by simp
  then have "c \<in> {0, 1, 2, 3, 4, 5, 6, 7, 8, 9, 10, 11, 12, 13, 14, 15}"
    by (simp only: upt_0_16) simp
  then show ?thesis
    by (elim insertE emptyE) (simp_all add: gt_def GT_AA_def GT_AB_def GT_BB_def GT_NC_def)
qed

lemma process_gt_table: "c < 16 \<Longrightarrow> \<exists>p. process_gt a b (gt ! c) = Inr p"
  using gt_entries [of c] by (auto simp: process_gt_def)

lemma strncpy_c_cong: "take n a = take n b \<Longrightarrow> strncpy_c a n = strncpy_c b n"
proof (induction a n arbitrary: b rule: strncpy_c.induct)
  case (1 src)
  show ?case by simp
next
  case (2 n)
  then have "b = []" by (cases b) simp_all
  then show ?case by simp
next
  case (3 c cs n)
  from "3.prems" obtain bs where b: "b = c # bs" and t: "take n cs = take n bs"
    by (cases b) simp_all
  show ?case
  proof (cases "c = NUL")
    case True
    with b show ?thesis by simp
  next
    case False
    from "3.IH" [OF False t] b show ?thesis by simp
  qed
qed

lemma strncmp_c_cong: "take n a = take n b \<Longrightarrow> strncmp_c d a n = strncmp_c d b n"
proof (induction d a n arbitrary: b rule: strncmp_c.induct)
  case (1 d src)
  show ?case by simp
next
  case (2 d n)
  then have "b = []" by (cases b) simp_all
  then show ?case by simp
next
  case (3 c cs n)
  then obtain bs where "b = c # bs" by (cases b) simp_all
  then show ?case by simp
next
  case (4 a as c cs n)
  from "4.prems" obtain bs where b: "b = c # bs" and t: "take n cs = take n bs"
    by (cases b) simp_all
  show ?case
  proof (cases "a = c")
    case True
    then have "\<not> a \<noteq> c" by simp
    from "4.IH" [OF this t] b True show ?thesis by simp
  next
    case False
    with b show ?thesis by simp
  qed
qed

lemma check_n_probe_set_id_cong:
  "take n a = take n b \<Longrightarrow> check_n_probe_set_id d a n = check_n_probe_set_id d b n"
  by (simp add: check_n_probe_set_id_def strncpy_c_cong [of n a b] strncmp_c_cong [of n a b])

lemma take_drop_update:
  "p < k \<or> k + n \<le> p \<Longrightarrow> take n (drop k (xs[p := w])) = take n (drop k xs)"
proof (erule disjE)
  assume "p < k"
  then show ?thesis by simp
next
  assume a: "k + n \<le> p"
  then have "drop k (xs[p := w]) = (drop k xs)[p - k := w]"
    by (simp add: drop_update_swap)
  moreover from a have "n \<le> p - k" by simp
  ultimately show ?thesis by simp
qed

lemma buf_long_update:
  "p < unat off \<or> unat off + 4 \<le> p \<Longrightarrow> buf_long h (row[p := w]) off = buf_long h row off"
  by (simp add: buf_long_def take_drop_update)

lemma col_offset_fp: "col_offset (ds\<lparr>fp := f\<rparr>) j = col_offset ds j"
  by (simp add: col_offset_def)

lemma col_offset_row: "col_offset (ds\<lparr>fp := f, buffer := b\<rparr>) j = col_offset ds j"
  by (simp add: col_offset_def)

lemma col_offset_InrD: "col_offset ds j = Inr x \<Longrightarrow> x = col_offsets ds ! j"
  by (simp add: col_offset_def split: if_splits)

text \<open>What a completed pass over one sample has done, step by step.\<close>

lemma varitr_loop_sample_steps:
  assumes "varitr_loop_sample h fob i v dss = Inr (Some (v', dss'))"
  shows "\<exists>row rest o0 n psid o1 o2 c o3 u3 o4 u4 nx ny dl sz.
     i < length dss \<and> i < length (is_axiom v) \<and> \<not> n_rows (dss ! i) < nrow v
   \<and> read_bytes (fp (dss ! i)) (unat (n_buffer (dss ! i))) = Inr (row, rest)
   \<and> col_offset (dss ! i) 0 = Inr o0 \<and> buf_long h row o0 = Inr n
   \<and> check_n_probe_set_id (probe_set_id v) (map byte_char (drop (unat o0 + 4) row)) (unat n)
       = Inr psid
   \<and> col_offset (dss ! i) 1 = Inr o1 \<and> unat o1 < length row
   \<and> col_offset (dss ! i) 2 = Inr o2 \<and> buf_long h row o2 = Inr c
   \<and> col_offset (dss ! i) 3 = Inr o3 \<and> buf_long h row o3 = Inr u3
   \<and> col_offset (dss ! i) 4 = Inr o4 \<and> buf_long h row o4 = Inr u4
   \<and> (nx, ny, dl, sz) =
        (if is_axiom v ! i
         then (exp ((fob u4 + fob u3 * 0.5) * M_LN2), exp ((fob u4 - fob u3 * 0.5) * M_LN2),
               fob u3, fob u4)
         else (fob u3, fob u4, fst (log2_signals (fob u3) (fob u4)),
               snd (log2_signals (fob u3) (fob u4))))
   \<and> v' = v\<lparr>probe_set_id := psid,
              gts := (gts v)[i := gt ! unat (row ! unat o1 AND 0x0F)],
              conf_arr := (conf_arr v)[i := fob c],
              norm_x_arr := (norm_x_arr v)[i := nx],
              norm_y_arr := (norm_y_arr v)[i := ny],
              delta_arr := (delta_arr v)[i := dl],
              size_arr := (size_arr v)[i := sz]\<rparr>
   \<and> dss' = dss[i := (dss ! i)\<lparr>fp := rest, buffer := row\<rparr>]"
  using assms
  apply (unfold varitr_loop_sample_def)
  apply (simp only: if_Inl_Inr_iff Let_def if_Inr_None_iff)
  apply (elim conjE)
  apply (erule ebind_InrE, simp only: prod.case split_paired_all if_Inl_Inr_iff)
  apply (erule ebind_InrE)
  apply (erule ebind_InrE)
  apply (erule ebind_InrE)
  apply (erule ebind_InrE, simp only: if_Inl_Inr_iff, elim conjE)
  apply (erule ebind_InrE)
  apply (erule ebind_InrE)
  apply (erule ebind_InrE)
  apply (erule ebind_InrE)
  apply (erule ebind_InrE)
  apply (erule ebind_InrE)
  subgoal for row rest o0 n psid o1 o2 c o3 u3 o4 u4
    apply (rule exI [of _ row])
    apply (rule exI [of _ rest])
    apply (rule exI [of _ o0])
    apply (rule exI [of _ n])
    apply (rule exI [of _ psid])
    apply (rule exI [of _ o1])
    apply (rule exI [of _ o2])
    apply (rule exI [of _ c])
    apply (rule exI [of _ o3])
    apply (rule exI [of _ u3])
    apply (rule exI [of _ o4])
    apply (rule exI [of _ u4])
    apply (cases "is_axiom v ! i")
     apply (simp add: col_offset_row split: prod.splits)
    apply (simp add: col_offset_row split: prod.splits)
    done
  done

lemma varitr_loop_sample_run:
  assumes "i < length dss" and "i < length (is_axiom v)" and "\<not> n_rows (dss ! i) < nrow v"
    and "read_bytes (fp (dss ! i)) (unat (n_buffer (dss ! i))) = Inr (row, rest)"
    and "col_offset (dss ! i) 0 = Inr o0" and "buf_long h row o0 = Inr n"
    and "check_n_probe_set_id (probe_set_id v) (map byte_char (drop (unat o0 + 4) row)) (unat n)
       = Inr psid"
    and "col_offset (dss ! i) 1 = Inr o1" and "unat o1 < length row"
    and "col_offset (dss ! i) 2 = Inr o2" and "buf_long h row o2 = Inr c"
    and "col_offset (dss ! i) 3 = Inr o3" and "buf_long h row o3 = Inr u3"
    and "col_offset (dss ! i) 4 = Inr o4" and "buf_long h row o4 = Inr u4"
    and "(nx, ny, dl, sz) =
        (if is_axiom v ! i
         then (exp ((fob u4 + fob u3 * 0.5) * M_LN2), exp ((fob u4 - fob u3 * 0.5) * M_LN2),
               fob u3, fob u4)
         else (fob u3, fob u4, fst (log2_signals (fob u3) (fob u4)),
               snd (log2_signals (fob u3) (fob u4))))"
  shows "varitr_loop_sample h fob i v dss
     = Inr (Some (v\<lparr>probe_set_id := psid,
                     gts := (gts v)[i := gt ! unat (row ! unat o1 AND 0x0F)],
                     conf_arr := (conf_arr v)[i := fob c],
                     norm_x_arr := (norm_x_arr v)[i := nx],
                     norm_y_arr := (norm_y_arr v)[i := ny],
                     delta_arr := (delta_arr v)[i := dl],
                     size_arr := (size_arr v)[i := sz]\<rparr>,
                  dss[i := (dss ! i)\<lparr>fp := rest, buffer := row\<rparr>]))"
proof (cases "is_axiom v ! i")
  case True
  with assms show ?thesis
    by (simp add: varitr_loop_sample_def ebind_Inr col_offset_row Let_def)
next
  case False
  with assms show ?thesis
    by (auto simp: varitr_loop_sample_def ebind_Inr col_offset_row Let_def split: prod.splits)
qed


lemma read_bytes_update:
  assumes "read_bytes f nb = Inr (row, rest)" and "p < length row"
  shows "read_bytes (f[p := w]) nb = Inr (row[p := w], rest)"
proof -
  from assms(1) have nb: "nb \<le> length f" and row: "row = take nb f" and rest: "rest = drop nb f"
    by (simp_all add: read_bytes_Inr_iff)
  from assms(2) row have "p < nb" by simp
  with nb row rest show ?thesis
    by (simp add: read_bytes_def take_update_swap)
qed

lemma varitr_loop_sample_call_byte:
  assumes run: "varitr_loop_sample h fob i v dss = Inr (Some (v', dss'))"
    and len: "buf_long h (buffer (dss' ! i)) (col_offsets (dss ! i) ! 0) = Inr n"
    and p: "p = unat (col_offsets (dss ! i) ! 1)"
    and id: "p < unat (col_offsets (dss ! i) ! 0) \<or> unat (col_offsets (dss ! i) ! 0) + 4 + unat n \<le> p"
    and fields: "\<forall>j \<in> {2, 3, 4}.
        p < unat (col_offsets (dss ! i) ! j) \<or> unat (col_offsets (dss ! i) ! j) + 4 \<le> p"
  shows "varitr_loop_sample h fob i v (dss[i := (dss ! i)\<lparr>fp := (fp (dss ! i))[p := w]\<rparr>])
     = Inr (Some (v'\<lparr>gts := (gts v)[i := gt ! unat (w AND 0x0F)]\<rparr>,
                  dss'[i := (dss' ! i)\<lparr>buffer := (buffer (dss' ! i))[p := w]\<rparr>]))"
proof -
  from varitr_loop_sample_steps [OF run]
  obtain row rest o0 n' psid o1 o2 c o3 u3 o4 u4 nx ny dl sz where
    i: "i < length dss" "i < length (is_axiom v)" "\<not> n_rows (dss ! i) < nrow v"
    and rd: "read_bytes (fp (dss ! i)) (unat (n_buffer (dss ! i))) = Inr (row, rest)"
    and o0: "col_offset (dss ! i) 0 = Inr o0" and n': "buf_long h row o0 = Inr n'"
    and ck: "check_n_probe_set_id (probe_set_id v) (map byte_char (drop (unat o0 + 4) row))
        (unat n') = Inr psid"
    and o1: "col_offset (dss ! i) 1 = Inr o1" and inside: "unat o1 < length row"
    and o2: "col_offset (dss ! i) 2 = Inr o2" and c: "buf_long h row o2 = Inr c"
    and o3: "col_offset (dss ! i) 3 = Inr o3" and u3: "buf_long h row o3 = Inr u3"
    and o4: "col_offset (dss ! i) 4 = Inr o4" and u4: "buf_long h row o4 = Inr u4"
    and sig: "(nx, ny, dl, sz) =
        (if is_axiom v ! i
         then (exp ((fob u4 + fob u3 * 0.5) * M_LN2), exp ((fob u4 - fob u3 * 0.5) * M_LN2),
               fob u3, fob u4)
         else (fob u3, fob u4, fst (log2_signals (fob u3) (fob u4)),
               snd (log2_signals (fob u3) (fob u4))))"
    and v': "v' = v\<lparr>probe_set_id := psid,
              gts := (gts v)[i := gt ! unat (row ! unat o1 AND 0x0F)],
              conf_arr := (conf_arr v)[i := fob c],
              norm_x_arr := (norm_x_arr v)[i := nx],
              norm_y_arr := (norm_y_arr v)[i := ny],
              delta_arr := (delta_arr v)[i := dl],
              size_arr := (size_arr v)[i := sz]\<rparr>"
    and dss': "dss' = dss[i := (dss ! i)\<lparr>fp := rest, buffer := row\<rparr>]"
    by blast
  let ?ds = "(dss ! i)\<lparr>fp := (fp (dss ! i))[p := w]\<rparr>"
  let ?dss = "dss[i := ?ds]"
  note offs = col_offset_InrD [OF o0] col_offset_InrD [OF o1] col_offset_InrD [OF o2]
    col_offset_InrD [OF o3] col_offset_InrD [OF o4]
  from i dss' have buf: "buffer (dss' ! i) = row" by simp
  from len n' have nn: "n' = n" by (simp add: buf offs)
  from p have po: "p = unat o1" by (simp add: offs)
  from i have at: "?dss ! i = ?ds" by simp
  have 1: "i < length ?dss" "\<not> n_rows (?dss ! i) < nrow v"
    using i by simp_all
  have 2: "read_bytes (fp (?dss ! i)) (unat (n_buffer (?dss ! i))) = Inr (row[p := w], rest)"
    using read_bytes_update [OF rd, of p w] inside po i by simp
  have 3: "col_offset (?dss ! i) 0 = Inr o0" "col_offset (?dss ! i) 1 = Inr o1"
    "col_offset (?dss ! i) 2 = Inr o2" "col_offset (?dss ! i) 3 = Inr o3"
    "col_offset (?dss ! i) 4 = Inr o4"
    using o0 o1 o2 o3 o4 by (simp_all add: at col_offset_fp)
  from id have ap0: "p < unat o0 \<or> unat o0 + 4 \<le> p" by (auto simp: offs)
  from fields have ap: "p < unat o2 \<or> unat o2 + 4 \<le> p" "p < unat o3 \<or> unat o3 + 4 \<le> p"
    "p < unat o4 \<or> unat o4 + 4 \<le> p"
    by (simp_all add: offs)
  have 4: "buf_long h (row[p := w]) o0 = Inr n" "buf_long h (row[p := w]) o2 = Inr c"
    "buf_long h (row[p := w]) o3 = Inr u3" "buf_long h (row[p := w]) o4 = Inr u4"
    using n' c u3 u4 ap0 ap by (simp_all add: buf_long_update nn)
  from id have "p < unat o0 + 4 \<or> unat o0 + 4 + unat n \<le> p" by (auto simp: offs)
  then have "take (unat n) (map byte_char (drop (unat o0 + 4) (row[p := w])))
      = take (unat n) (map byte_char (drop (unat o0 + 4) row))"
    by (simp add: take_map take_drop_update)
  from check_n_probe_set_id_cong [OF this] ck
  have 5: "check_n_probe_set_id (probe_set_id v)
      (map byte_char (drop (unat o0 + 4) (row[p := w]))) (unat n) = Inr psid"
    by (simp add: nn)
  from inside have 6: "unat o1 < length (row[p := w])" by simp
  from inside po have 7: "(row[p := w]) ! unat o1 = w" by simp
  from varitr_loop_sample_run [OF 1(1) i(2) 1(2) 2 3(1) 4(1) 5 3(2) 6 3(3) 4(2) 3(4) 4(3) 3(5) 4(4) sig]
  have "varitr_loop_sample h fob i v ?dss
     = Inr (Some (v\<lparr>probe_set_id := psid,
                     gts := (gts v)[i := gt ! unat (w AND 0x0F)],
                     conf_arr := (conf_arr v)[i := fob c],
                     norm_x_arr := (norm_x_arr v)[i := nx],
                     norm_y_arr := (norm_y_arr v)[i := ny],
                     delta_arr := (delta_arr v)[i := dl],
                     size_arr := (size_arr v)[i := sz]\<rparr>,
                  ?dss[i := (?dss ! i)\<lparr>fp := rest, buffer := row[p := w]\<rparr>]))"
    by (simp only: 7)
  also have "v\<lparr>probe_set_id := psid,
                     gts := (gts v)[i := gt ! unat (w AND 0x0F)],
                     conf_arr := (conf_arr v)[i := fob c],
                     norm_x_arr := (norm_x_arr v)[i := nx],
                     norm_y_arr := (norm_y_arr v)[i := ny],
                     delta_arr := (delta_arr v)[i := dl],
                     size_arr := (size_arr v)[i := sz]\<rparr>
      = v'\<lparr>gts := (gts v)[i := gt ! unat (w AND 0x0F)]\<rparr>"
    by (simp add: v')
  also have "?dss[i := (?dss ! i)\<lparr>fp := rest, buffer := row[p := w]\<rparr>]
      = dss'[i := (dss' ! i)\<lparr>buffer := (buffer (dss' ! i))[p := w]\<rparr>]"
    using i by (simp add: dss')
  finally show ?thesis .
qed

lemma varitr_loop_sample_row:
  assumes "varitr_loop_sample h fob i v dss = Inr (Some (v', dss'))"
  shows "buffer (dss' ! i) = take (unat (n_buffer (dss ! i))) (fp (dss ! i))
     \<and> gts v' = (gts v)[i := gt ! unat (buffer (dss' ! i) ! unat (col_offsets (dss ! i) ! 1)
                                        AND 0x0F)]"
proof -
  from varitr_loop_sample_steps [OF assms]
  obtain row rest o1 psid c nx ny dl sz where
    i: "i < length dss"
    and rd: "read_bytes (fp (dss ! i)) (unat (n_buffer (dss ! i))) = Inr (row, rest)"
    and o1: "col_offset (dss ! i) 1 = Inr o1"
    and v': "v' = v\<lparr>probe_set_id := psid,
              gts := (gts v)[i := gt ! unat (row ! unat o1 AND 0x0F)],
              conf_arr := (conf_arr v)[i := fob c],
              norm_x_arr := (norm_x_arr v)[i := nx],
              norm_y_arr := (norm_y_arr v)[i := ny],
              delta_arr := (delta_arr v)[i := dl],
              size_arr := (size_arr v)[i := sz]\<rparr>"
    and dss': "dss' = dss[i := (dss ! i)\<lparr>fp := rest, buffer := row\<rparr>]"
    by blast
  from rd have "row = take (unat (n_buffer (dss ! i))) (fp (dss ! i))"
    by (simp add: read_bytes_Inr_iff)
  with i show ?thesis
    by (simp add: v' dss' col_offset_InrD [OF o1])
qed


text \<open>
  The statement that a call code outside 6, 7, 8 and 11 aborts the run fails on the
  example (C1): the table gives every such code the value \<open>- 1\<close>, which is \<open>GT_NC\<close>, so the
  code is taken for a no-call. The second sample of the example carries the call byte 0,
  the advance succeeds with the calls AA and no-call, and the output stage writes a
  missing genotype for it. The output stage does abort on a call it does not know (3, as
  a text table could supply it), but no table entry can reach that branch.
\<close>

theorem invalid_call_code_emitted_as_missing:
  "map_sum id (map_option gts) (varitr_loop LittleEndian example_fob (\<lambda>_. 0) (\<lambda>_. 0) cc_example)
     = Inr (Some [GT_AA, GT_NC])
   \<and> row_short ! 11 AND 0x0F = 0
   \<and> map (\<lambda>c. gt ! c) [0, 1, 2, 3, 4, 5, 9, 10, 12, 13, 14, 15]
       = [GT_NC, GT_NC, GT_NC, GT_NC, GT_NC, GT_NC, GT_NC, GT_NC, GT_NC, GT_NC, GT_NC, GT_NC]
   \<and> process_gts 0 1 [GT_AA, GT_NC]
       = Inr [(bcf_gt_unphased 0, bcf_gt_unphased 0), (bcf_gt_missing, bcf_gt_missing)]
   \<and> process_gts 0 1 [GT_AA, 3] = Inl GenotypeMalformed"
  by (simp add: cc_example_run cc_example_result_def row_short_def gt_def GT_NC_def GT_AA_def
        GT_AB_def GT_BB_def process_gt_def ebind_def)

text \<open>
  C1, as the code has it. In a completed pass over a sample the row is the next
  \<open>n_buffer\<close> bytes of the sample's stream, and the call stored for the sample is the
  entry of the sixteen-entry table selected by the low four bits of the call byte, the
  byte of the row at the offset of the second column. No value of that byte aborts the
  pass: when the call byte lies outside the identifier and outside the three 32-bit
  fields that are read, the pass over the same stream with any other byte \<open>w\<close> in its
  place completes as well, and differs only in the stored call, which is the entry for
  the low four bits of \<open>w\<close>, and in that byte of the row buffer. The entry is AA exactly
  for code 6, BB exactly for code 7, AB exactly for code 8 and the no-call value for
  each of the thirteen other codes, 11 and the codes with no meaning alike; the output
  stage accepts every entry of the table and writes a missing genotype for the no-call
  value.
\<close>

theorem call_codes_decode:
  assumes "varitr_loop_sample h fob i v dss = Inr (Some (v', dss'))"
  shows "buffer (dss' ! i) = take (unat (n_buffer (dss ! i))) (fp (dss ! i))
    \<and> gts v' = (gts v)[i := gt ! unat (buffer (dss' ! i) ! unat (col_offsets (dss ! i) ! 1)
                                       AND 0x0F)]
    \<and> (buf_long h (buffer (dss' ! i)) (col_offsets (dss ! i) ! 0) = Inr n
          \<and> p = unat (col_offsets (dss ! i) ! 1)
          \<and> (p < unat (col_offsets (dss ! i) ! 0)
               \<or> unat (col_offsets (dss ! i) ! 0) + 4 + unat n \<le> p)
          \<and> (\<forall>j \<in> {2, 3, 4}.
                 p < unat (col_offsets (dss ! i) ! j) \<or> unat (col_offsets (dss ! i) ! j) + 4 \<le> p)
        \<longrightarrow> varitr_loop_sample h fob i v (dss[i := (dss ! i)\<lparr>fp := (fp (dss ! i))[p := w]\<rparr>])
              = Inr (Some (v'\<lparr>gts := (gts v)[i := gt ! unat (w AND 0x0F)]\<rparr>,
                           dss'[i := (dss' ! i)\<lparr>buffer := (buffer (dss' ! i))[p := w]\<rparr>])))
    \<and> unat (w AND 0x0F) < 16
    \<and> (c < 16 \<longrightarrow>
          (gt ! c = GT_AA \<longleftrightarrow> c = 6) \<and> (gt ! c = GT_BB \<longleftrightarrow> c = 7) \<and> (gt ! c = GT_AB \<longleftrightarrow> c = 8)
        \<and> (gt ! c = GT_NC \<longleftrightarrow> c \<noteq> 6 \<and> c \<noteq> 7 \<and> c \<noteq> 8)
        \<and> (\<exists>g. process_gt a b (gt ! c) = Inr g)
        \<and> (gt ! c = GT_NC \<longrightarrow> process_gt a b (gt ! c) = Inr (bcf_gt_missing, bcf_gt_missing)))"
proof (intro conjI impI)
  from varitr_loop_sample_row [OF assms]
  show "buffer (dss' ! i) = take (unat (n_buffer (dss ! i))) (fp (dss ! i))"
    and "gts v' = (gts v)[i := gt ! unat (buffer (dss' ! i) ! unat (col_offsets (dss ! i) ! 1)
                                       AND 0x0F)]"
    by simp_all
  show "unat (w AND 0x0F) < 16" by (rule nibble_bound)
next
  assume h: "buf_long h (buffer (dss' ! i)) (col_offsets (dss ! i) ! 0) = Inr n
          \<and> p = unat (col_offsets (dss ! i) ! 1)
          \<and> (p < unat (col_offsets (dss ! i) ! 0)
               \<or> unat (col_offsets (dss ! i) ! 0) + 4 + unat n \<le> p)
          \<and> (\<forall>j \<in> {2, 3, 4}.
                 p < unat (col_offsets (dss ! i) ! j) \<or> unat (col_offsets (dss ! i) ! j) + 4 \<le> p)"
  show "varitr_loop_sample h fob i v (dss[i := (dss ! i)\<lparr>fp := (fp (dss ! i))[p := w]\<rparr>])
      = Inr (Some (v'\<lparr>gts := (gts v)[i := gt ! unat (w AND 0x0F)]\<rparr>,
                   dss'[i := (dss' ! i)\<lparr>buffer := (buffer (dss' ! i))[p := w]\<rparr>]))"
    by (rule varitr_loop_sample_call_byte [OF assms, of n p]) (insert h, blast)+
next
  assume c: "c < 16"
  from gt_entries [OF c]
  show "gt ! c = GT_AA \<longleftrightarrow> c = 6" and "gt ! c = GT_BB \<longleftrightarrow> c = 7" and "gt ! c = GT_AB \<longleftrightarrow> c = 8"
    and "gt ! c = GT_NC \<longleftrightarrow> c \<noteq> 6 \<and> c \<noteq> 7 \<and> c \<noteq> 8"
    by simp_all
  from process_gt_table [OF c] show "\<exists>g. process_gt a b (gt ! c) = Inr g" .
  assume "gt ! c = GT_NC"
  then show "process_gt a b (gt ! c) = Inr (bcf_gt_missing, bcf_gt_missing)"
    by (simp add: process_gt_def)
qed

text \<open>
  The second sample of the example, whose call byte is 0, and the same row with the
  call byte 13.
\<close>

theorem call_codes_decode_witness:
  "varitr_loop_sample LittleEndian example_fob (Suc 0)
     (cc_example\<lparr>nrow := 1, probe_set_id := ''AX-1234'', gts := [GT_AA, 0],
                  conf_arr := [1, 0], norm_x_arr := [100, 0], norm_y_arr := [25, 0],
                  delta_arr := [fst (log2_signals 100 25), 0],
                  size_arr := [snd (log2_signals 100 25), 0]\<rparr>)
     [(example_ds row_long)\<lparr>fp := [], buffer := row_long\<rparr>, example_ds row_short]
   = Inr (Some (cc_example_result\<lparr>data_sets := data_sets cc_example\<rparr>,
                [(example_ds row_long)\<lparr>fp := [], buffer := row_long\<rparr>,
                 (example_ds row_short)\<lparr>fp := [], buffer := row_short\<rparr>]))
   \<and> buf_long LittleEndian row_short 0 = Inr 5
   \<and> row_short ! 11 = 0 \<and> row_short[11 := 13] ! 11 AND 0x0F = 13
   \<and> gts cc_example_result = [GT_AA, gt ! 0]
   \<and> varitr_loop_sample LittleEndian example_fob (Suc 0)
       (cc_example\<lparr>nrow := 1, probe_set_id := ''AX-1234'', gts := [GT_AA, 0],
                    conf_arr := [1, 0], norm_x_arr := [100, 0], norm_y_arr := [25, 0],
                    delta_arr := [fst (log2_signals 100 25), 0],
                    size_arr := [snd (log2_signals 100 25), 0]\<rparr>)
       [(example_ds row_long)\<lparr>fp := [], buffer := row_long\<rparr>,
        (example_ds row_short)\<lparr>fp := row_short[11 := 13]\<rparr>]
     = Inr (Some (cc_example_result\<lparr>data_sets := data_sets cc_example, gts := [GT_AA, gt ! 13]\<rparr>,
                  [(example_ds row_long)\<lparr>fp := [], buffer := row_long\<rparr>,
                   (example_ds row_short)\<lparr>fp := [], buffer := row_short[11 := 13]\<rparr>]))
   \<and> (13 :: nat) < 16 \<and> gt ! 13 = GT_NC
   \<and> process_gt 0 1 (gt ! 13) = Inr (bcf_gt_missing, bcf_gt_missing)"
proof -
  let ?v = "cc_example\<lparr>nrow := 1, probe_set_id := ''AX-1234'', gts := [GT_AA, 0],
                  conf_arr := [1, 0], norm_x_arr := [100, 0], norm_y_arr := [25, 0],
                  delta_arr := [fst (log2_signals 100 25), 0],
                  size_arr := [snd (log2_signals 100 25), 0]\<rparr>"
  let ?d = "[(example_ds row_long)\<lparr>fp := [], buffer := row_long\<rparr>, example_ds row_short]"
  let ?d' = "[(example_ds row_long)\<lparr>fp := [], buffer := row_long\<rparr>,
             (example_ds row_short)\<lparr>fp := [], buffer := row_short\<rparr>]"
  have bl: "buf_long LittleEndian row_short 0 = Inr 5"
    by (simp add: buf_long_be row_short_def be32_def)
  have ds: "col_offsets (example_ds row_short) = [0, 11, 12, 16, 20, 24]"
    "fp (example_ds row_short) = row_short"
    by (simp_all add: example_ds_def)
  have rs: "row_short ! 11 = 0" "row_short[11 := 13] ! 11 AND 0x0F = 13"
    by (simp_all add: row_short_def)
  have g: "gts cc_example_result = [GT_AA, gt ! 0]" "gts ?v = [GT_AA, 0]"
    by (simp_all add: cc_example_result_def cc_example_def gt_def)
  note t = call_codes_decode [OF cc_example_sample1, where n = 5 and p = 11 and w = 13
      and c = 13 and a = 0 and b = 1]
  from t bl have run: "varitr_loop_sample LittleEndian example_fob (Suc 0) ?v
       [(example_ds row_long)\<lparr>fp := [], buffer := row_long\<rparr>,
        (example_ds row_short)\<lparr>fp := row_short[11 := 13]\<rparr>]
     = Inr (Some (cc_example_result\<lparr>data_sets := data_sets cc_example, gts := [GT_AA, gt ! 13]\<rparr>,
                  [(example_ds row_long)\<lparr>fp := [], buffer := row_long\<rparr>,
                   (example_ds row_short)\<lparr>fp := [], buffer := row_short[11 := 13]\<rparr>]))"
    by (simp add: ds g)
  from t have tbl: "gt ! 13 = GT_NC"
    "process_gt 0 1 (gt ! 13) = Inr (bcf_gt_missing, bcf_gt_missing)"
    by simp_all
  from cc_example_sample1 bl rs g(1) run tbl show ?thesis
    by simp
qed


text \<open>
  C7. The claim is that a step never completes with two sources on different probe
  sets. In binary mode the later sources are compared with \<^verbatim>\<open>strncmp\<close> over the length
  of their own identifier, so an identifier that is a proper prefix of the reference
  passes: in the example the first sample is on \<^verbatim>\<open>AX-1234\<close>, the second on \<^verbatim>\<open>AX-12\<close>,
  and the advance succeeds. The text path compares whole strings and rejects the same
  pair.
\<close>

theorem shorter_identifier_accepted:
  "map_sum id (map_option probe_set_id)
     (varitr_loop LittleEndian example_fob strtol strtof cc_example) = Inr (Some ''AX-1234'')
   \<and> map byte_char (take 5 (drop 4 row_short)) = ''AX-12''
   \<and> check_n_probe_set_id ''AX-1234'' (map byte_char (drop 4 row_short)) 5 = Inr ''AX-1234''
   \<and> check_probe_set_id ''AX-1234'' ''AX-12'' = Inl NameMismatch"
proof -
  have "map byte_char (take 5 (drop 4 row_short)) = ''AX-12''"
    unfolding row_short_def by code_simp
  moreover have "check_n_probe_set_id ''AX-1234'' (map byte_char (drop 4 row_short)) 5
      = Inr ''AX-1234''"
    by (simp add: check_n_probe_set_id_def row_short_def strncmp_c_step strncmp_c_end ebind_Inr
          NUL_def example_id [simplified])
  ultimately show ?thesis
    by (simp add: cc_example_run cc_example_result_def check_probe_set_id_def)
qed

section \<open>Signals of both modes\<close>

lemma summary_seek_fields:
  "summary_seek n s = Inr (Some (fs, rest)) \<Longrightarrow> length fs = 1 + n"
proof (induction n s arbitrary: fs rest rule: summary_seek.induct)
  case (1 n s)
  note u = summary_seek.simps [of n s]
  show ?case
  proof (cases "hts_getline s")
    case None
    with "1.prems" u show ?thesis by simp
  next
    case (Some x)
    obtain line r where x: "x = (line, r)" by (cases x)
    from "1.prems" u Some x "1.IH" [OF Some x [symmetric] refl]
    show ?thesis
      by (auto simp: Let_def split: if_splits)
  qed
qed

lemma read_summary_signals:
  assumes "read_summary strtof w s = Inr (Some w')" and "j < nsmpl w"
  shows "delta_arr w' ! j = log 2 (norm_x_arr w' ! j) - log 2 (norm_y_arr w' ! j)
       \<and> size_arr w' ! j = (log 2 (norm_x_arr w' ! j) + log 2 (norm_y_arr w' ! j)) / 2
       \<and> length (delta_arr w') = nsmpl w \<and> length (size_arr w') = nsmpl w"
proof -
  from read_summary_SomeD [OF assms(1)] obtain fieldsA s1
    where seek: "summary_seek (nsmpl w) s = Inr (Some (fieldsA, s1))"
      and comp: "read_summary_companion strtof w fieldsA s1 = Inr (Some w')"
    by blast
  from read_summary_companion_SomeD [OF comp] obtain fields
    where len: "length fields = 1 + nsmpl w"
      and nx: "norm_x_arr w' = map strtof (tl fieldsA)"
      and ny: "norm_y_arr w' = map strtof (tl fields)"
      and dl: "delta_arr w' = map (\<lambda>(x, y). fst (log2_signals x y)) (zip (norm_x_arr w') (norm_y_arr w'))"
      and sz: "size_arr w' = map (\<lambda>(x, y). snd (log2_signals x y)) (zip (norm_x_arr w') (norm_y_arr w'))"
    by blast
  from summary_seek_fields [OF seek] have "length (norm_x_arr w') = nsmpl w"
    by (simp add: nx)
  moreover from len have "length (norm_y_arr w') = nsmpl w"
    by (simp add: ny)
  ultimately show ?thesis
    using assms(2) by (simp add: dl sz log2_signals_eq)
qed

lemma varitr_loop_sample_signals:
  assumes "varitr_loop_sample h fob i v dss = Inr (Some (v', dss'))"
    and "\<not> is_axiom v ! i"
    and "i < length (norm_x_arr v)" and "i < length (norm_y_arr v)"
    and "i < length (delta_arr v)" and "i < length (size_arr v)"
  shows "delta_arr v' ! i = log 2 (norm_x_arr v' ! i) - log 2 (norm_y_arr v' ! i)
       \<and> size_arr v' ! i = (log 2 (norm_x_arr v' ! i) + log 2 (norm_y_arr v' ! i)) / 2"
  using varitr_loop_sample_SomeD [OF assms(1)] assms(2-)
  by (auto simp: log2_signals_eq)

text \<open>
  C4, with the value of the example put right. From two raw signals A and B the code
  computes the contrast \<open>log\<^sub>2 A - log\<^sub>2 B\<close> and the size \<open>(log\<^sub>2 A + log\<^sub>2 B) / 2\<close>: in
  binary mode for every sample whose container is in the Signal A/B encoding, in text
  mode for every sample of a summary pair. For A = 100 and B = 25 the contrast is 2
  and the size is \<open>log\<^sub>2 (100 * 25) / 2\<close>, which lies between 5.64 and 5.65.
\<close>

theorem signals_to_contrast_and_size:
  "log2_signals a b = (log 2 a - log 2 b, (log 2 a + log 2 b) / 2)
   \<and> (varitr_loop_sample h fob i v dss = Inr (Some (v', dss')) \<and> \<not> is_axiom v ! i
        \<and> i < length (norm_x_arr v) \<and> i < length (norm_y_arr v)
        \<and> i < length (delta_arr v) \<and> i < length (size_arr v)
      \<longrightarrow> delta_arr v' ! i = log 2 (norm_x_arr v' ! i) - log 2 (norm_y_arr v' ! i)
        \<and> size_arr v' ! i = (log 2 (norm_x_arr v' ! i) + log 2 (norm_y_arr v' ! i)) / 2)
   \<and> (read_summary strtof w s = Inr (Some w') \<and> j < nsmpl w
      \<longrightarrow> delta_arr w' ! j = log 2 (norm_x_arr w' ! j) - log 2 (norm_y_arr w' ! j)
        \<and> size_arr w' ! j = (log 2 (norm_x_arr w' ! j) + log 2 (norm_y_arr w' ! j)) / 2)
   \<and> fst (log2_signals 100 25) = 2
   \<and> snd (log2_signals 100 25) = log 2 (100 * 25) / 2
   \<and> 5.64 < snd (log2_signals 100 25) \<and> snd (log2_signals 100 25) < 5.65"
  using varitr_loop_sample_signals [of h fob i v dss v' dss']
    read_summary_signals [of strtof w s w' j] example_signals
  by (simp add: log2_signals_eq)

text \<open>
  C4 as stated gives the size of the example as about 3.3219; the code's value differs
  from that by more than 2.
\<close>

theorem size_of_example_signals:
  "fst (log2_signals 100 25) = 2
   \<and> snd (log2_signals 100 25) = log 2 (100 * 25) / 2
   \<and> \<not> \<bar>snd (log2_signals 100 25) - 3.3219\<bar> < 2"
  using example_signals by simp

lemmas txt_eval = hts_getline_def Let_def MAX_LENGTH_PROBE_SET_ID_def first_off_def TAB_def LF_def

lemma signal_table_seek:
  "summary_seek 1 signal_table = Inr (Some ([''p1'', ''100''], ''p1-B'' @ [TAB] @ ''25'' @ [LF]))"
  by (subst summary_seek.simps) (simp add: signal_table_def txt_eval)

lemma signal_table_run:
  "read_summary example_strtof (txt_example signal_table) signal_table
     = Inr (Some ((txt_example signal_table)
          \<lparr>summary_fp := Some [], norm_x_arr := [100], norm_y_arr := [25],
            delta_arr := [fst (log2_signals 100 25)], size_arr := [snd (log2_signals 100 25)],
            probe_set_id := ''p1''\<rparr>))"
  by (simp add: read_summary_def sbind_def txt_example_def signal_table_seek [unfolded One_nat_def]
        read_summary_companion_def txt_eval check_probe_set_id_def ebind_Inr example_strtof_def)

text \<open>
  The two examples: the first sample of the binary example, and a summary pair with the
  signals 100 and 25.
\<close>

theorem signals_to_contrast_and_size_witness:
  "varitr_loop_sample LittleEndian example_fob 0 (cc_example\<lparr>probe_set_id := [], nrow := 1\<rparr>)
     [example_ds row_long, example_ds row_short]
   = Inr (Some (cc_example\<lparr>nrow := 1, probe_set_id := ''AX-1234'', gts := [GT_AA, 0],
                  conf_arr := [1, 0], norm_x_arr := [100, 0], norm_y_arr := [25, 0],
                  delta_arr := [fst (log2_signals 100 25), 0],
                  size_arr := [snd (log2_signals 100 25), 0]\<rparr>,
                [(example_ds row_long)\<lparr>fp := [], buffer := row_long\<rparr>, example_ds row_short]))
   \<and> \<not> is_axiom cc_example ! 0
   \<and> fst (log2_signals 100 25) = log 2 100 - log 2 25
   \<and> read_summary example_strtof (txt_example signal_table) signal_table
     = Inr (Some ((txt_example signal_table)
          \<lparr>summary_fp := Some [], norm_x_arr := [100], norm_y_arr := [25],
            delta_arr := [fst (log2_signals 100 25)], size_arr := [snd (log2_signals 100 25)],
            probe_set_id := ''p1''\<rparr>))
   \<and> (0 :: nat) < nsmpl (txt_example signal_table)
   \<and> snd (log2_signals 100 25) = (log 2 100 + log 2 25) / 2"
proof -
  have ax: "\<not> is_axiom (cc_example\<lparr>probe_set_id := [], nrow := 1\<rparr>) ! 0"
    and lens: "0 < length (norm_x_arr (cc_example\<lparr>probe_set_id := [], nrow := 1\<rparr>))"
      "0 < length (norm_y_arr (cc_example\<lparr>probe_set_id := [], nrow := 1\<rparr>))"
      "0 < length (delta_arr (cc_example\<lparr>probe_set_id := [], nrow := 1\<rparr>))"
      "0 < length (size_arr (cc_example\<lparr>probe_set_id := [], nrow := 1\<rparr>))"
    by (simp_all add: cc_example_def)
  have n: "0 < nsmpl (txt_example signal_table)"
    by (simp add: txt_example_def)
  from signals_to_contrast_and_size
    [of 100 25 LittleEndian example_fob 0 "cc_example\<lparr>probe_set_id := [], nrow := 1\<rparr>"
      "[example_ds row_long, example_ds row_short]" _ _
      example_strtof "txt_example signal_table" signal_table _ 0]
    cc_example_sample0 signal_table_run ax lens n
  show ?thesis
    by (simp add: cc_example_def)
qed

text \<open>
  C2, as the code has it. Let the current line of the summary table end in \<^verbatim>\<open>-A\<close>,
  with a prefix of at most 17 characters, and let the look-ahead (which must fit the
  17-character array it is read into) not show the same prefix followed by \<^verbatim>\<open>-B\<close>,
  because the table ends there, because the prefix differs or because the suffix does.
  Then the reader does not fail at this line: it drops the line and starts again at the
  next one. If no line is left the iteration ends (\<^verbatim>\<open>return -1\<close>); if the next line
  ends in \<^verbatim>\<open>-B\<close> the run is aborted there, since an \<^verbatim>\<open>-A\<close> line was expected; a next
  line ending in \<^verbatim>\<open>-A\<close> is read as a new first line.
\<close>

theorem unpaired_A_line_is_skipped:
  assumes "hts_getline s = Some (line, rest)"
    and "ksplit_core line TAB = (p @ ''-A'') # fs"
    and "length fs = n"
    and "length p \<le> MAX_LENGTH_PROBE_SET_ID"
    and "min (length p + 2) (length rest) \<le> MAX_LENGTH_PROBE_SET_ID"
    and "take (length p + 2) rest \<noteq> p @ ''-B''"
  shows "summary_seek n s = summary_seek n rest
    \<and> (rest = [] \<longrightarrow> summary_seek n s = Inr None)
    \<and> (\<forall>line2 rest2 q fs2.
          hts_getline rest = Some (line2, rest2) \<and> ksplit_core line2 TAB = (q @ ''-B'') # fs2
          \<and> length fs2 = n
        \<longrightarrow> summary_seek n s = Inl ExpectedSuffixA)
    \<and> (nsmpl v = n \<longrightarrow> read_summary strtof v s = read_summary strtof v rest)"
proof -
  from summary_seek_line [OF assms(1-5)] assms(6)
  have skip: "summary_seek n s = summary_seek n rest" by simp
  have "summary_seek n [] = Inr None"
    by (subst summary_seek.simps) (simp add: hts_getline_def)
  moreover have "summary_seek n rest = Inl ExpectedSuffixA"
    if "hts_getline rest = Some (line2, rest2)" and "ksplit_core line2 TAB = (q @ ''-B'') # fs2"
      and "length fs2 = n" for line2 rest2 q fs2
    using that by (subst summary_seek.simps) (simp add: Let_def nth_append)
  ultimately show ?thesis
    using skip by (auto simp: read_summary_def)
qed

lemma skip_rest_seek:
  "summary_seek 1 skip_rest = Inr (Some ([''p2'', ''2''], ''p2-B'' @ [TAB] @ ''3'' @ [LF]))"
  by (subst summary_seek.simps) (simp add: skip_rest_def txt_eval)

text \<open>
  A table with the lines \<^verbatim>\<open>p1-A\<close>, \<^verbatim>\<open>p2-A\<close>, \<^verbatim>\<open>p2-B\<close>: the first line is dropped.
\<close>

theorem unpaired_A_line_is_skipped_witness:
  "hts_getline skip_table = Some (''p1-A'' @ [TAB] @ ''1'', skip_rest)
   \<and> ksplit_core (''p1-A'' @ [TAB] @ ''1'') TAB = (''p1'' @ ''-A'') # [''1'']
   \<and> take (length ''p1'' + 2) skip_rest \<noteq> ''p1'' @ ''-B''
   \<and> summary_seek 1 skip_table = summary_seek 1 skip_rest
   \<and> summary_seek 1 skip_table = Inr (Some ([''p2'', ''2''], ''p2-B'' @ [TAB] @ ''3'' @ [LF]))"
proof -
  have a: "hts_getline skip_table = Some (''p1-A'' @ [TAB] @ ''1'', skip_rest)"
    by (simp add: skip_table_def skip_rest_def txt_eval)
  have b: "ksplit_core (''p1-A'' @ [TAB] @ ''1'') TAB = (''p1'' @ ''-A'') # [''1'']"
    by (simp add: TAB_def)
  have c: "length [''1''] = 1" by simp
  have d: "length ''p1'' \<le> MAX_LENGTH_PROBE_SET_ID"
    by (simp add: MAX_LENGTH_PROBE_SET_ID_def)
  have e: "min (length ''p1'' + 2) (length skip_rest) \<le> MAX_LENGTH_PROBE_SET_ID"
    by (simp add: MAX_LENGTH_PROBE_SET_ID_def skip_rest_def)
  have f: "take (length ''p1'' + 2) skip_rest \<noteq> ''p1'' @ ''-B''"
    by (simp add: skip_rest_def)
  from unpaired_A_line_is_skipped [OF a b c d e f] a b f skip_rest_seek
  show ?thesis by simp
qed

text \<open>
  C2 as stated fails. On that table the advance succeeds and delivers the probe set
  \<^verbatim>\<open>p2\<close>, with no error for the unpaired line \<^verbatim>\<open>p1-A\<close>; on a table that consists of
  the line \<^verbatim>\<open>p1-A\<close> alone, the advance reports the end of the data.
\<close>

theorem unpaired_A_line_not_fatal:
  "map_sum id (map_option probe_set_id)
     (varitr_loop LittleEndian example_fob (\<lambda>t. 0) example_strtof (txt_example skip_table))
     = Inr (Some ''p2'')
   \<and> varitr_loop LittleEndian example_fob (\<lambda>t. 0) example_strtof
        (txt_example (''p1-A'' @ [TAB] @ ''1'' @ [LF])) = Inr None"
proof -
  have "summary_seek 1 skip_table = Inr (Some ([''p2'', ''2''], ''p2-B'' @ [TAB] @ ''3'' @ [LF]))"
    by (subst summary_seek.simps, simp add: skip_table_def txt_eval)
       (subst summary_seek.simps, simp add: txt_eval)
  moreover have "summary_seek 1 (''p1-A'' @ [TAB] @ ''1'' @ [LF]) = Inr None"
    by (subst summary_seek.simps, simp add: txt_eval)
       (subst summary_seek.simps, simp add: txt_eval)
  ultimately show ?thesis
    by (simp add: varitr_loop_def varitr_loop_txt_def sbind_def txt_example_def read_summary_def
          read_summary_companion_def txt_eval check_probe_set_id_def ebind_Inr
          del: One_nat_def)
qed

section \<open>The length of identifiers\<close>












section \<open>Cluster adjustment\<close>

lemma GT_distinct:
  "GT_AA \<noteq> GT_AB" "GT_AA \<noteq> GT_BB" "GT_AB \<noteq> GT_BB"
  "GT_AB \<noteq> GT_AA" "GT_BB \<noteq> GT_AA" "GT_BB \<noteq> GT_AB"
  by (simp_all add: GT_AA_def GT_AB_def GT_BB_def)

lemma add_all_Nil: "add_all g x y c [] cl = cl"
  by (simp add: add_all_def obs_sum_def obs_count_def)

lemma add_all_Cons_hit:
  "g ! j = c \<Longrightarrow> add_all g x y c (j # js) cl = add_all g x y c js (add_obs (x ! j) (y ! j) cl)"
  by (simp add: add_all_def obs_sum_def obs_count_def add_obs_def algebra_simps)

lemma add_all_Cons_miss:
  "g ! j \<noteq> c \<Longrightarrow> add_all g x y c (j # js) cl = add_all g x y c js cl"
  by (simp add: add_all_def obs_sum_def obs_count_def)

lemma adjust_loop_eq:
  "foldl (adjust_step g x y) s js =
     s\<lparr>aa := add_all g x y GT_AA js (aa s),
       ab := add_all g x y GT_AB js (ab s),
       bb := add_all g x y GT_BB js (bb s)\<rparr>"
proof (induction js arbitrary: s)
  case Nil
  show ?case by (simp add: add_all_Nil)
next
  case (Cons j js)
  consider (A) "g ! j = GT_AA" | (H) "g ! j = GT_AB" | (B) "g ! j = GT_BB"
    | (N) "g ! j \<noteq> GT_AA" "g ! j \<noteq> GT_AB" "g ! j \<noteq> GT_BB"
    by blast
  then show ?case
  proof cases
    case A
    then have "adjust_step g x y s j = s\<lparr>aa := add_obs (x ! j) (y ! j) (aa s)\<rparr>"
      by (simp add: adjust_step_def)
    with A show ?thesis
      by (simp add: Cons.IH add_all_Cons_hit add_all_Cons_miss GT_distinct)
  next
    case H
    then have "adjust_step g x y s j = s\<lparr>ab := add_obs (x ! j) (y ! j) (ab s)\<rparr>"
      by (simp add: adjust_step_def GT_distinct)
    with H show ?thesis
      by (simp add: Cons.IH add_all_Cons_hit add_all_Cons_miss GT_distinct)
  next
    case B
    then have "adjust_step g x y s j = s\<lparr>bb := add_obs (x ! j) (y ! j) (bb s)\<rparr>"
      by (simp add: adjust_step_def GT_distinct)
    with B show ?thesis
      by (simp add: Cons.IH add_all_Cons_hit add_all_Cons_miss GT_distinct)
  next
    case N
    then have "adjust_step g x y s j = s"
      by (simp add: adjust_step_def)
    with N show ?thesis
      by (simp add: Cons.IH add_all_Cons_miss)
  qed
qed

lemma adjust_clusters_eq:
  "adjust_clusters g x y n s =
     s\<lparr>aa := divide_means (add_all g x y GT_AA [0..<n]
                 ((aa s)\<lparr>xm := xm (aa s) * 0.2, ym := ym (aa s) * 0.2, k_c := 0.2\<rparr>)),
       ab := divide_means (add_all g x y GT_AB [0..<n]
                 ((ab s)\<lparr>xm := xm (ab s) * 0.2, ym := ym (ab s) * 0.2, k_c := 0.2\<rparr>)),
       bb := divide_means (add_all g x y GT_BB [0..<n]
                 ((bb s)\<lparr>xm := xm (bb s) * 0.2, ym := ym (bb s) * 0.2, k_c := 0.2\<rparr>))\<rparr>"
  by (simp add: adjust_clusters_def adjust_loop_eq adjust_final_def adjust_init_def)

text \<open>
  C5. For each of the three clusters and each of the two dimensions, the mean after
  \<^verbatim>\<open>adjust_clusters\<close> is the prior mean times 0.2 plus the observed values of the samples
  called in that cluster, divided by 0.2 plus the number of those samples; with no such
  sample this is the prior mean times 0.2 divided by 0.2.
\<close>

theorem adjust_clusters_posterior_means:
  "xm (aa (adjust_clusters g x y n s)) = posterior_mean (xm (aa s)) x (called g n GT_AA)
 \<and> ym (aa (adjust_clusters g x y n s)) = posterior_mean (ym (aa s)) y (called g n GT_AA)
 \<and> xm (ab (adjust_clusters g x y n s)) = posterior_mean (xm (ab s)) x (called g n GT_AB)
 \<and> ym (ab (adjust_clusters g x y n s)) = posterior_mean (ym (ab s)) y (called g n GT_AB)
 \<and> xm (bb (adjust_clusters g x y n s)) = posterior_mean (xm (bb s)) x (called g n GT_BB)
 \<and> ym (bb (adjust_clusters g x y n s)) = posterior_mean (ym (bb s)) y (called g n GT_BB)
 \<and> posterior_mean prior d [] = prior * 0.2 / 0.2"
  by (simp add: adjust_clusters_eq divide_means_def add_all_def posterior_mean_def
        called_def obs_sum_def obs_count_def)

text \<open>
  The example of the specification: prior mean 10 and two AA observations 8 and 12 (a
  third sample is a no-call) give the mean 10; the AB cluster has no supporting call.
\<close>

lemma upt_0_3: "[0..<3] = [0, 1, 2]"
  by code_simp

theorem adjust_clusters_posterior_means_witness:
  "xm (aa (adjust_clusters [GT_AA, GT_NC, GT_AA] [8, 3, 12] [9, 9, 9] 3 example_snp)) = 10
   \<and> xm (ab (adjust_clusters [GT_AA, GT_NC, GT_AA] [8, 3, 12] [9, 9, 9] 3 example_snp)) = 0 * 0.2 / 0.2"
  using adjust_clusters_posterior_means [of "[GT_AA, GT_NC, GT_AA]" "[8, 3, 12]" "[9, 9, 9]" 3 example_snp 0 "[]"]
  by (simp add: posterior_mean_def called_def example_snp_def GT_AA_def GT_NC_def GT_AB_def GT_BB_def upt_0_3)

text \<open>
  C10. \<^verbatim>\<open>adjust_clusters\<close> returns the model it was given with, in each of the three
  clusters, new values of \<open>xm\<close>, \<open>ym\<close> and \<open>k_c\<close> only, the new \<open>k_c\<close> being 0.2 plus the
  number of supporting calls whatever it was before; the variances, the variance
  pseudo-count, the covariance, the identifier and the copy number are those of the
  input.
\<close>

theorem adjust_clusters_frame:
  "adjust_clusters g x y n s =
     s\<lparr>aa := (aa s)\<lparr>xm := xm (aa (adjust_clusters g x y n s)),
                    ym := ym (aa (adjust_clusters g x y n s)),
                    k_c := 0.2 + real (length (called g n GT_AA))\<rparr>,
       ab := (ab s)\<lparr>xm := xm (ab (adjust_clusters g x y n s)),
                    ym := ym (ab (adjust_clusters g x y n s)),
                    k_c := 0.2 + real (length (called g n GT_AB))\<rparr>,
       bb := (bb s)\<lparr>xm := xm (bb (adjust_clusters g x y n s)),
                    ym := ym (bb (adjust_clusters g x y n s)),
                    k_c := 0.2 + real (length (called g n GT_BB))\<rparr>\<rparr>
   \<and> snp_probe_set_id (adjust_clusters g x y n s) = snp_probe_set_id s
   \<and> copynumber (adjust_clusters g x y n s) = copynumber s
   \<and> xss (aa (adjust_clusters g x y n s)) = xss (aa s)
   \<and> yss (aa (adjust_clusters g x y n s)) = yss (aa s)
   \<and> v_c (aa (adjust_clusters g x y n s)) = v_c (aa s)
   \<and> xyss (aa (adjust_clusters g x y n s)) = xyss (aa s)
   \<and> xss (ab (adjust_clusters g x y n s)) = xss (ab s)
   \<and> yss (ab (adjust_clusters g x y n s)) = yss (ab s)
   \<and> v_c (ab (adjust_clusters g x y n s)) = v_c (ab s)
   \<and> xyss (ab (adjust_clusters g x y n s)) = xyss (ab s)
   \<and> xss (bb (adjust_clusters g x y n s)) = xss (bb s)
   \<and> yss (bb (adjust_clusters g x y n s)) = yss (bb s)
   \<and> v_c (bb (adjust_clusters g x y n s)) = v_c (bb s)
   \<and> xyss (bb (adjust_clusters g x y n s)) = xyss (bb s)"
  by (simp add: adjust_clusters_eq divide_means_def add_all_def called_def obs_count_def)

text \<open>On the example the stored pseudo-count 5 of the AA cluster becomes 2.2.\<close>

theorem adjust_clusters_frame_example:
  "k_c (aa example_snp) = 5
   \<and> k_c (aa (adjust_clusters [GT_AA, GT_NC, GT_AA] [8, 3, 12] [9, 9, 9] 3 example_snp)) = 2.2
   \<and> xss (aa (adjust_clusters [GT_AA, GT_NC, GT_AA] [8, 3, 12] [9, 9, 9] 3 example_snp)) = 1"
proof -
  have "k_c (aa (adjust_clusters [GT_AA, GT_NC, GT_AA] [8, 3, 12] [9, 9, 9] 3 example_snp))
      = 0.2 + real (length (called [GT_AA, GT_NC, GT_AA] 3 GT_AA))"
    by (subst adjust_clusters_frame [of "[GT_AA, GT_NC, GT_AA]" "[8, 3, 12]" "[9, 9, 9]" 3
          example_snp, THEN conjunct1]) simp
  moreover have "xss (aa (adjust_clusters [GT_AA, GT_NC, GT_AA] [8, 3, 12] [9, 9, 9] 3 example_snp))
      = xss (aa example_snp)"
    using adjust_clusters_frame [of "[GT_AA, GT_NC, GT_AA]" "[8, 3, 12]" "[9, 9, 9]" 3 example_snp]
    by blast
  ultimately show ?thesis
    by (simp add: called_def example_snp_def GT_AA_def GT_NC_def upt_0_3)
qed

section \<open>Projection\<close>

lemma project_sample_snp: "snp (project_sample gbl nx ny c p i) = snp p"
  by (simp add: project_sample_def Let_def split: prod.splits)

lemma foldl_project_snp: "snp (foldl (project_sample gbl nx ny c) p js) = snp p"
  by (induction js arbitrary: p) (simp_all add: project_sample_snp)

lemma project_sample_eq:
  "project_sample gbl nx ny c p i =
     p\<lparr>baf := (baf p)[i := fst (sample_baf_lrr gbl nx ny c i)],
       lrr := (lrr p)[i := snd (sample_baf_lrr gbl nx ny c i)]\<rparr>"
  by (simp add: project_sample_def sample_baf_lrr_def Let_def split: prod.splits)

lemma foldl_project_eq:
  "foldl (project_sample gbl nx ny c) p js =
     p\<lparr>baf := foldl (\<lambda>l i. l[i := fst (sample_baf_lrr gbl nx ny c i)]) (baf p) js,
       lrr := foldl (\<lambda>l i. l[i := snd (sample_baf_lrr gbl nx ny c i)]) (lrr p) js\<rparr>"
  by (induction js arbitrary: p) (simp_all add: project_sample_eq)

lemma foldl_update_length: "length (foldl (\<lambda>l i. l[i := f i]) l js) = length l"
  by (induction js arbitrary: l) simp_all

lemma foldl_update_nth:
  "k < length l \<Longrightarrow>
     foldl (\<lambda>l i. l[i := f i]) l js ! k = (if k \<in> set js then f k else l ! k)"
proof (induction js arbitrary: l)
  case Nil
  show ?case by simp
next
  case (Cons j js)
  from Cons.prems have "k < length (l[j := f j])" by simp
  from Cons.IH [OF this] Cons.prems show ?case
    by (simp add: nth_list_update)
qed

lemma foldl_update_fixed:
  "\<forall>k \<in> set js. k < length m \<longrightarrow> m ! k = f k \<Longrightarrow> foldl (\<lambda>l i. l[i := f i]) m js = m"
proof (induction js)
  case Nil
  show ?case by simp
next
  case (Cons j js)
  have "m[j := f j] = m"
  proof (cases "j < length m")
    case True
    with Cons.prems have "m ! j = f j" by simp
    then show ?thesis by (metis list_update_id)
  next
    case False
    then show ?thesis by (simp add: list_update_beyond)
  qed
  with Cons show ?case by simp
qed

lemma foldl_update_twice:
  "foldl (\<lambda>l i. l[i := f i]) (foldl (\<lambda>l i. l[i := f i]) l js) js = foldl (\<lambda>l i. l[i := f i]) l js"
  by (rule foldl_update_fixed) (simp add: foldl_update_nth foldl_update_length)

lemma compute_baf_lrr_snp: "snp (compute_baf_lrr gbl nx ny n b p) = snp p"
  by (simp add: compute_baf_lrr_def foldl_project_snp)

lemma compute_baf_lrr_twice:
  "compute_baf_lrr gbl nx ny n b (compute_baf_lrr gbl nx ny n b p) = compute_baf_lrr gbl nx ny n b p"
  by (simp add: compute_baf_lrr_def foldl_project_snp) (simp add: foldl_project_eq foldl_update_twice)

lemma cluster_centres_haploid_birdseed:
  "copynumber s = 1 \<Longrightarrow>
   cluster_centres True s =
     (arctan (ym (aa s) / xm (aa s)) * M_2_PI,
      (arctan (ym (aa s) / xm (aa s)) * M_2_PI + arctan (ym (bb s) / xm (bb s)) * M_2_PI) / 2,
      arctan (ym (bb s) / xm (bb s)) * M_2_PI,
      xm (aa s) + ym (aa s),
      ((xm (aa s) + ym (aa s)) + (xm (bb s) + ym (bb s))) / 2,
      xm (bb s) + ym (bb s))"
  by (simp add: cluster_centres_def)

lemma cluster_centres_haploid_other:
  "copynumber s = 1 \<Longrightarrow>
   cluster_centres False s =
     (arctan (exp (- xm (aa s) * M_LN2)) * M_2_PI,
      (arctan (exp (- xm (aa s) * M_LN2)) * M_2_PI + arctan (exp (- xm (bb s) * M_LN2)) * M_2_PI) / 2,
      arctan (exp (- xm (bb s) * M_LN2)) * M_2_PI,
      exp (ym (aa s) * M_LN2) * 2 * cosh (xm (aa s) * 0.5 * M_LN2),
      (exp (ym (aa s) * M_LN2) * 2 * cosh (xm (aa s) * 0.5 * M_LN2)
         + exp (ym (bb s) * M_LN2) * 2 * cosh (xm (bb s) * 0.5 * M_LN2)) / 2,
      exp (ym (bb s) * M_LN2) * 2 * cosh (xm (bb s) * 0.5 * M_LN2))"
  by (simp add: cluster_centres_def)

lemma cluster_centres_haploid_ab:
  "copynumber s = 1 \<Longrightarrow> cluster_centres b (s\<lparr>ab := c\<rparr>) = cluster_centres b s"
  by (cases b) (simp_all add: cluster_centres_def)

lemma compute_baf_lrr_pair:
  "i < n \<Longrightarrow> i < length (baf p) \<Longrightarrow> i < length (lrr p) \<Longrightarrow>
   (baf (compute_baf_lrr gbl nx ny n b p) ! i, lrr (compute_baf_lrr gbl nx ny n b p) ! i)
     = (case cluster_centres b (snp p) of
          (aa_theta, ab_theta, bb_theta, aa_r, ab_r, bb_r) \<Rightarrow>
            gbl (arctan (ny ! i / nx ! i) * M_2_PI) (nx ! i + ny ! i)
              aa_theta ab_theta bb_theta aa_r ab_r bb_r)"
  by (simp add: compute_baf_lrr_def foldl_project_eq foldl_update_nth sample_baf_lrr_def
        split: prod.splits)

text \<open>
  C6. For a model of copy number 1, the centres that the projection uses are these: AA
  and BB at the polar position of the model's AA and BB clusters (by the map of the
  model's kind), and AB at the midpoint of the two, in theta and in r, whatever the
  model stores for AB. These centres are handed to the interpolation for every sample.
  The projection leaves the model as it was, and projecting again from its own result
  changes nothing. The quotients are those of the reals, so the statement leaves out a
  divisor 0, where the \<^verbatim>\<open>float\<close> quotient is infinite.
\<close>

theorem haploid_projection:
  assumes "copynumber (snp p) = 1"
  shows "(xm (aa (snp p)) \<noteq> 0 \<and> xm (bb (snp p)) \<noteq> 0 \<longrightarrow>
          cluster_centres True (snp p) =
            (arctan (ym (aa (snp p)) / xm (aa (snp p))) * M_2_PI,
             (arctan (ym (aa (snp p)) / xm (aa (snp p))) * M_2_PI
                + arctan (ym (bb (snp p)) / xm (bb (snp p))) * M_2_PI) / 2,
             arctan (ym (bb (snp p)) / xm (bb (snp p))) * M_2_PI,
             xm (aa (snp p)) + ym (aa (snp p)),
             ((xm (aa (snp p)) + ym (aa (snp p))) + (xm (bb (snp p)) + ym (bb (snp p)))) / 2,
             xm (bb (snp p)) + ym (bb (snp p))))
    \<and> cluster_centres False (snp p) =
         (arctan (exp (- xm (aa (snp p)) * M_LN2)) * M_2_PI,
          (arctan (exp (- xm (aa (snp p)) * M_LN2)) * M_2_PI
             + arctan (exp (- xm (bb (snp p)) * M_LN2)) * M_2_PI) / 2,
          arctan (exp (- xm (bb (snp p)) * M_LN2)) * M_2_PI,
          exp (ym (aa (snp p)) * M_LN2) * 2 * cosh (xm (aa (snp p)) * 0.5 * M_LN2),
          (exp (ym (aa (snp p)) * M_LN2) * 2 * cosh (xm (aa (snp p)) * 0.5 * M_LN2)
             + exp (ym (bb (snp p)) * M_LN2) * 2 * cosh (xm (bb (snp p)) * 0.5 * M_LN2)) / 2,
          exp (ym (bb (snp p)) * M_LN2) * 2 * cosh (xm (bb (snp p)) * 0.5 * M_LN2))
    \<and> cluster_centres b ((snp p)\<lparr>ab := c\<rparr>) = cluster_centres b (snp p)
    \<and> snp (compute_baf_lrr gbl nx ny n b p) = snp p
    \<and> compute_baf_lrr gbl nx ny n b (compute_baf_lrr gbl nx ny n b p)
        = compute_baf_lrr gbl nx ny n b p
    \<and> (\<forall>i < n. i < length (baf p) \<and> i < length (lrr p) \<and> nx ! i \<noteq> 0 \<longrightarrow>
         (baf (compute_baf_lrr gbl nx ny n b p) ! i, lrr (compute_baf_lrr gbl nx ny n b p) ! i)
           = (case cluster_centres b (snp p) of
                (aa_theta, ab_theta, bb_theta, aa_r, ab_r, bb_r) \<Rightarrow>
                  gbl (arctan (ny ! i / nx ! i) * M_2_PI) (nx ! i + ny ! i)
                    aa_theta ab_theta bb_theta aa_r ab_r bb_r))"
proof (intro conjI allI impI)
  show "cluster_centres True (snp p) =
            (arctan (ym (aa (snp p)) / xm (aa (snp p))) * M_2_PI,
             (arctan (ym (aa (snp p)) / xm (aa (snp p))) * M_2_PI
                + arctan (ym (bb (snp p)) / xm (bb (snp p))) * M_2_PI) / 2,
             arctan (ym (bb (snp p)) / xm (bb (snp p))) * M_2_PI,
             xm (aa (snp p)) + ym (aa (snp p)),
             ((xm (aa (snp p)) + ym (aa (snp p))) + (xm (bb (snp p)) + ym (bb (snp p)))) / 2,
             xm (bb (snp p)) + ym (bb (snp p)))"
    by (rule cluster_centres_haploid_birdseed [OF assms])
  show "cluster_centres False (snp p) =
         (arctan (exp (- xm (aa (snp p)) * M_LN2)) * M_2_PI,
          (arctan (exp (- xm (aa (snp p)) * M_LN2)) * M_2_PI
             + arctan (exp (- xm (bb (snp p)) * M_LN2)) * M_2_PI) / 2,
          arctan (exp (- xm (bb (snp p)) * M_LN2)) * M_2_PI,
          exp (ym (aa (snp p)) * M_LN2) * 2 * cosh (xm (aa (snp p)) * 0.5 * M_LN2),
          (exp (ym (aa (snp p)) * M_LN2) * 2 * cosh (xm (aa (snp p)) * 0.5 * M_LN2)
             + exp (ym (bb (snp p)) * M_LN2) * 2 * cosh (xm (bb (snp p)) * 0.5 * M_LN2)) / 2,
          exp (ym (bb (snp p)) * M_LN2) * 2 * cosh (xm (bb (snp p)) * 0.5 * M_LN2))"
    by (rule cluster_centres_haploid_other [OF assms])
  show "cluster_centres b ((snp p)\<lparr>ab := c\<rparr>) = cluster_centres b (snp p)"
    by (rule cluster_centres_haploid_ab [OF assms])
  show "snp (compute_baf_lrr gbl nx ny n b p) = snp p"
    by (rule compute_baf_lrr_snp)
  show "compute_baf_lrr gbl nx ny n b (compute_baf_lrr gbl nx ny n b p)
        = compute_baf_lrr gbl nx ny n b p"
    by (rule compute_baf_lrr_twice)
next
  fix i
  assume "i < n" and "i < length (baf p) \<and> i < length (lrr p) \<and> nx ! i \<noteq> 0"
  then show "(baf (compute_baf_lrr gbl nx ny n b p) ! i, lrr (compute_baf_lrr gbl nx ny n b p) ! i)
           = (case cluster_centres b (snp p) of
                (aa_theta, ab_theta, bb_theta, aa_r, ab_r, bb_r) \<Rightarrow>
                  gbl (arctan (ny ! i / nx ! i) * M_2_PI) (nx ! i + ny ! i)
                    aa_theta ab_theta bb_theta aa_r ab_r bb_r)"
    by (intro compute_baf_lrr_pair) simp_all
qed

theorem haploid_projection_witness:
  "copynumber (snp haploid_example) = 1
   \<and> xm (aa (snp haploid_example)) \<noteq> 0 \<and> xm (bb (snp haploid_example)) \<noteq> 0
   \<and> cluster_centres True (snp haploid_example) = (0, 1 / 4, 1 / 2, 1, 3 / 2, 2)
   \<and> snp (compute_baf_lrr (\<lambda>t r a1 a2 a3 a4 a5 a6. (a2, a5)) [1, 1] [1, 1] 2 True haploid_example)
       = snp haploid_example
   \<and> (1 :: nat) < 2 \<and> 1 < length (baf haploid_example) \<and> 1 < length (lrr haploid_example)
   \<and> [1, 1 :: real] ! 1 \<noteq> 0
   \<and> baf (compute_baf_lrr (\<lambda>t r a1 a2 a3 a4 a5 a6. (a2, a5)) [1, 1] [1, 1] 2 True haploid_example) ! 1
       = 1 / 4
   \<and> lrr (compute_baf_lrr (\<lambda>t r a1 a2 a3 a4 a5 a6. (a2, a5)) [1, 1] [1, 1] 2 True haploid_example) ! 1
       = 3 / 2"
proof -
  have c: "copynumber (snp haploid_example) = 1"
    by (simp add: haploid_example_def)
  have x: "xm (aa (snp haploid_example)) = 1" "xm (bb (snp haploid_example)) = 1"
    "ym (aa (snp haploid_example)) = 0" "ym (bb (snp haploid_example)) = 1"
    "length (baf haploid_example) = 2" "length (lrr haploid_example) = 2"
    by (simp_all add: haploid_example_def)
  note t = haploid_projection [OF c,
      where gbl = "\<lambda>t r a1 a2 a3 a4 a5 a6. (a2, a5)" and nx = "[1, 1]" and ny = "[1, 1]"
        and n = 2 and b = True and c = "ab (snp haploid_example)"]
  from t have cen: "cluster_centres True (snp haploid_example) = (0, 1 / 4, 1 / 2, 1, 3 / 2, 2)"
    by (simp add: x M_2_PI_def arctan_one)
  from t have same: "snp (compute_baf_lrr (\<lambda>t r a1 a2 a3 a4 a5 a6. (a2, a5)) [1, 1] [1, 1] 2 True
      haploid_example) = snp haploid_example"
    by simp
  from t [THEN conjunct2, THEN conjunct2, THEN conjunct2, THEN conjunct2, THEN conjunct2,
      rule_format, of 1]
  have "(baf (compute_baf_lrr (\<lambda>t r a1 a2 a3 a4 a5 a6. (a2, a5)) [1, 1] [1, 1] 2 True
            haploid_example) ! 1,
         lrr (compute_baf_lrr (\<lambda>t r a1 a2 a3 a4 a5 a6. (a2, a5)) [1, 1] [1, 1] 2 True
            haploid_example) ! 1) = (1 / 4, 3 / 2)"
    by (simp add: x cen)
  with c cen same show ?thesis
    by (simp add: x)
qed


end
